theory Spec2Isabelle
  imports Complex_Main "HOL-Library.Word"
begin

unbundle bit_operations_syntax

section \<open>LockFreeQueue (HFT-System-CPP/include/core/lock\_free\_queue.hpp)\<close>

text \<open>
  The single-producer single-consumer ring of the HFT system. \<open>head_\<close> and \<open>tail_\<close> are
  \<open>size_t\<close> counters (64-bit words); the template parameter \<open>Size\<close> is passed to every
  operation. \<open>buffer_\<close> is a \<open>std::array<T, Size>\<close>, read and written only at \<open>head_\<close> and
  \<open>tail_\<close>; it is kept as a function from the index. The atomics' memory orders do not
  appear: the model is the sequential behaviour of one call at a time.
\<close>

record 'a LockFreeQueue =
  head :: "64 word"
  tail :: "64 word"
  buffer :: "64 word \<Rightarrow> 'a"

definition new_queue :: "(64 word \<Rightarrow> 'a) \<Rightarrow> 'a LockFreeQueue" where
  "new_queue buf = \<lparr>head = 0, tail = 0, buffer = buf\<rparr>"


definition pop :: "64 word \<Rightarrow> 'a LockFreeQueue \<Rightarrow> 'a option \<times> 'a LockFreeQueue" where
  "pop Size q =
     (let current_head = head q
      in if current_head = tail q then (None, q)
         else (Some (buffer q current_head),
               q\<lparr>head := (current_head + 1) AND (Size - 1)\<rparr>))"

definition empty_q :: "'a LockFreeQueue \<Rightarrow> bool" where
  "empty_q q = (head q = tail q)"



section \<open>MemoryPool (HFT-System-CPP/include/core/memory\_pool.hpp)\<close>

text \<open>
  The pool's cells are named by their addresses, natural numbers in units of one cell.
  \<open>blocks_\<close> is the vector of block base addresses; \<open>::operator new\<close> is modelled as
  handing out the next unused range, so the block allocated when \<open>n\<close> blocks exist
  starts at \<open>n * BlockSize\<close>. The intrusive chain \<open>free_list_ \<rightarrow> next \<rightarrow> \<dots>\<close> is kept as
  the list of the cell addresses on it, head first. The template parameter \<open>BlockSize\<close>
  is an argument; every instantiation in the repository uses the default 4096.
\<close>

record MemoryPool =
  free_list :: "nat list"
  blocks :: "nat list"

definition expandPool :: "nat \<Rightarrow> MemoryPool \<Rightarrow> MemoryPool" where
  "expandPool BlockSize p =
     (let new_block = length (blocks p) * BlockSize
      in \<lparr>free_list = [new_block ..< new_block + BlockSize] @ free_list p,
          blocks = blocks p @ [new_block]\<rparr>)"

definition new_pool :: "nat \<Rightarrow> MemoryPool" where
  "new_pool BlockSize = expandPool BlockSize \<lparr>free_list = [], blocks = []\<rparr>"

text \<open>
  \<open>allocate\<close> has no failure path in the source: an empty free list is refilled by
  \<open>expandPool\<close> and the head cell is popped. Reading the head of the free list is
  \<open>hd\<close>; lemma \<open>allocate_free_list_nonempty\<close> below shows the list read is never
  empty when \<open>0 < BlockSize\<close>.
\<close>

definition allocate :: "nat \<Rightarrow> MemoryPool \<Rightarrow> nat \<times> MemoryPool" where
  "allocate BlockSize p =
     (let p1 = (if free_list p = [] then expandPool BlockSize p else p)
      in (hd (free_list p1), p1\<lparr>free_list := tl (free_list p1)\<rparr>))"

definition deallocate :: "nat \<Rightarrow> MemoryPool \<Rightarrow> MemoryPool" where
  "deallocate ptr p = p\<lparr>free_list := ptr # free_list p\<rparr>"

definition capacity :: "nat \<Rightarrow> MemoryPool \<Rightarrow> nat" where
  "capacity BlockSize p = length (blocks p) * BlockSize"

section \<open>OrderBook (HFT-System-CPP/src/market\_data/order\_book.cpp)\<close>

datatype Side = BUY | SELL

record Order =
  order_id :: "64 word"
  price :: "64 word"
  quantity :: "32 word"
  side :: Side
  timestamp :: "64 word"

record Trade =
  buy_order_id :: "64 word"
  sell_order_id :: "64 word"
  t_price :: "64 word"
  t_quantity :: "32 word"
  t_timestamp :: "64 word"

text \<open>
  An \<open>OrderNode\<close> is a pool cell, named by its address. A \<open>PriceLevel\<close>'s doubly linked
  chain \<open>head \<rightarrow> next \<rightarrow> \<dots> \<rightarrow> tail\<close> is kept as \<open>queue\<close>, the list of the node addresses
  on it from head to tail: \<open>head == nullptr\<close> is \<open>queue = []\<close>, linking at \<open>tail\<close> appends,
  and unlinking a node deletes its address from the list.
\<close>

record PriceLevel =
  level_price :: "64 word"
  total_quantity :: "32 word"
  order_count :: "32 word"
  queue :: "nat list"

definition MAX_PRICE_LEVELS :: nat where
  "MAX_PRICE_LEVELS = 20000"

definition UINT64_MAX :: "64 word" where
  "UINT64_MAX = - 1"

definition base_price :: "64 word" where
  "base_price = 10000"

text \<open>
  \<open>bid_levels_\<close> and \<open>ask_levels_\<close> are arrays of \<open>MAX_PRICE_LEVELS\<close> levels; every access
  in the source is behind the test \<open>level_idx >= MAX_PRICE_LEVELS\<close>, and they are kept as
  functions from the index. \<open>nodes\<close> is the memory of the pool's cells: the \<open>Order\<close>
  stored in the node at each address. \<open>deallocate\<close> writes the free-list link over the
  start of a freed cell; the model leaves the old \<open>Order\<close> there, and no operation
  reads a cell between its release and its next \<open>allocate\<close>, which stores a new
  \<open>Order\<close>. \<open>base_price_\<close> is never assigned after its initialiser and is the
  constant above.
\<close>

record OrderBook =
  bid_levels :: "nat \<Rightarrow> PriceLevel"
  ask_levels :: "nat \<Rightarrow> PriceLevel"
  best_bid :: "64 word"
  best_ask :: "64 word"
  num_price_levels :: "32 word"
  order_pool :: MemoryPool
  nodes :: "nat \<Rightarrow> Order"
  order_map :: "64 word \<rightharpoonup> nat"
  total_volume :: "64 word"
  trade_count :: "64 word"

definition empty_level :: PriceLevel where
  "empty_level = \<lparr>level_price = 0, total_quantity = 0, order_count = 0, queue = []\<rparr>"

definition blank_order :: Order where
  "blank_order = \<lparr>order_id = 0, price = 0, quantity = 0, side = BUY, timestamp = 0\<rparr>"

definition new_book :: "32 word \<Rightarrow> OrderBook" where
  "new_book n =
     \<lparr>bid_levels = (\<lambda>_. empty_level), ask_levels = (\<lambda>_. empty_level),
      best_bid = 0, best_ask = UINT64_MAX,
      num_price_levels = min n (of_nat MAX_PRICE_LEVELS),
      order_pool = new_pool 4096, nodes = (\<lambda>_. blank_order), order_map = Map.empty,
      total_volume = 0, trade_count = 0\<rparr>"

text \<open>A \<open>PriceLevel*\<close> is a side and an index: which array, and where in it.\<close>

definition level_at :: "Side \<Rightarrow> nat \<Rightarrow> OrderBook \<Rightarrow> PriceLevel" where
  "level_at s i bk = (if s = BUY then bid_levels bk i else ask_levels bk i)"

definition set_level :: "Side \<Rightarrow> nat \<Rightarrow> PriceLevel \<Rightarrow> OrderBook \<Rightarrow> OrderBook" where
  "set_level s i l bk =
     (if s = BUY then bk\<lparr>bid_levels := (bid_levels bk)(i := l)\<rparr>
      else bk\<lparr>ask_levels := (ask_levels bk)(i := l)\<rparr>)"

definition updateBestPrices :: "OrderBook \<Rightarrow> OrderBook" where
  "updateBestPrices bk =
     bk\<lparr>best_bid :=
          (case find (\<lambda>i. 0 < order_count (bid_levels bk i)) (rev [0 ..< MAX_PRICE_LEVELS]) of
             None \<Rightarrow> 0
           | Some i \<Rightarrow> level_price (bid_levels bk i)),
        best_ask :=
          (case find (\<lambda>i. 0 < order_count (ask_levels bk i)) [0 ..< MAX_PRICE_LEVELS] of
             None \<Rightarrow> UINT64_MAX
           | Some i \<Rightarrow> level_price (ask_levels bk i))\<rparr>"

text \<open>
  \<open>executeTrade\<close> builds the trade and counts it. The trade is handed to
  \<open>trade_callback_\<close> when one is installed; the model returns it, and the operations
  below collect the trades in the order they are made. \<open>clk\<close> stands for \<open>core::Timer::timestamp_ns()\<close>: the reading
  taken for the trade made when \<open>trade_count_\<close> trades have been counted.
\<close>

definition executeTrade ::
  "(64 word \<Rightarrow> 64 word) \<Rightarrow> nat \<Rightarrow> Order \<Rightarrow> 32 word \<Rightarrow> OrderBook \<Rightarrow> Trade \<times> OrderBook" where
  "executeTrade clk passive_node aggressive_order trade_qty bk =
     (let passive = nodes bk passive_node;
          trade = \<lparr>buy_order_id =
                     (if side passive = BUY then order_id passive else order_id aggressive_order),
                   sell_order_id =
                     (if side passive = SELL then order_id passive else order_id aggressive_order),
                   t_price = price passive,
                   t_quantity = trade_qty,
                   t_timestamp = clk (trade_count bk)\<rparr>
      in (trade, bk\<lparr>total_volume := total_volume bk + ucast trade_qty,
                    trade_count := trade_count bk + 1\<rparr>))"

definition removeFromBook :: "nat \<Rightarrow> Side \<Rightarrow> nat \<Rightarrow> OrderBook \<Rightarrow> OrderBook" where
  "removeFromBook node s i bk =
     (let level = level_at s i bk;
          level1 = level\<lparr>queue := remove1 node (queue level),
                        order_count := order_count level - 1\<rparr>;
          level2 = (if order_count level1 = 0
                    then level1\<lparr>total_quantity := 0, level_price := 0\<rparr> else level1);
          bk1 = set_level s i level2 bk
      in bk1\<lparr>order_map := (order_map bk1)(order_id (nodes bk1 node) := None),
             order_pool := deallocate node (order_pool bk1)\<rparr>)"

definition addToBook :: "Order \<Rightarrow> OrderBook \<Rightarrow> OrderBook" where
  "addToBook order bk =
     (let level_idx = unat (price order - base_price)
      in if level_idx \<ge> MAX_PRICE_LEVELS then bk
         else
           let (node, pool1) = allocate 4096 (order_pool bk);
               bk1 = bk\<lparr>order_pool := pool1, nodes := (nodes bk)(node := order)\<rparr>;
               level = level_at (side order) level_idx bk1;
               level1 = level\<lparr>queue := queue level @ [node],
                             level_price := price order,
                             total_quantity := total_quantity level + quantity order,
                             order_count := order_count level + 1\<rparr>;
               bk2 = set_level (side order) level_idx level1 bk1;
               bk3 = bk2\<lparr>order_map := (order_map bk2)(order_id order \<mapsto> node)\<rparr>
           in updateBestPrices bk3)"

text \<open>
  \<open>matchOrder\<close> has one loop for a buy, over \<open>ask_levels_\<close> and \<open>best_ask_\<close>, and the same
  loop for a sell, over \<open>bid_levels_\<close> and \<open>best_bid_\<close>. The two differ in the loop test,
  the cached best price and the array; these are \<open>loop_cond\<close>, \<open>best_opposite\<close> and the
  side of the level, and the loop is written once.
\<close>

definition opposite :: "Side \<Rightarrow> Side" where
  "opposite s = (if s = BUY then SELL else BUY)"

definition loop_cond :: "Order \<Rightarrow> OrderBook \<Rightarrow> bool" where
  "loop_cond order bk =
     (if side order = BUY
      then 0 < quantity order \<and> best_ask bk \<noteq> UINT64_MAX \<and> best_ask bk \<le> price order
      else 0 < quantity order \<and> best_bid bk \<noteq> 0 \<and> price order \<le> best_bid bk)"

definition best_opposite :: "Order \<Rightarrow> OrderBook \<Rightarrow> 64 word" where
  "best_opposite order bk = (if side order = BUY then best_ask bk else best_bid bk)"

text \<open>One pass through the loop body with \<open>level->head = node\<close>, past both early exits.\<close>

definition match_step ::
  "(64 word \<Rightarrow> 64 word) \<Rightarrow> nat \<Rightarrow> nat \<Rightarrow> Order \<Rightarrow> OrderBook \<Rightarrow> Trade \<times> Order \<times> OrderBook" where
  "match_step clk node level_idx order bk =
     (let s = opposite (side order);
          trade_qty = min (quantity order) (quantity (nodes bk node));
          (trade, bk1) = executeTrade clk node order trade_qty bk;
          n = nodes bk1 node;
          bk2 = bk1\<lparr>nodes := (nodes bk1)(node := n\<lparr>quantity := quantity n - trade_qty\<rparr>)\<rparr>;
          order1 = order\<lparr>quantity := quantity order - trade_qty\<rparr>;
          level = level_at s level_idx bk2;
          bk3 = set_level s level_idx
                  (level\<lparr>total_quantity := total_quantity level - trade_qty\<rparr>) bk2;
          bk4 = (if quantity (nodes bk3 node) = 0
                 then removeFromBook node s level_idx bk3 else bk3)
      in (trade, order1, bk4))"

definition match_measure :: "Order \<Rightarrow> OrderBook \<Rightarrow> nat" where
  "match_measure order bk =
     2 * length (queue (level_at (opposite (side order))
                          (unat (best_opposite order bk - base_price)) bk))
     + (if quantity order = 0 then 0 else 1)"

text \<open>What one pass changes, field by field.\<close>

lemma set_level_fields:
  "best_bid (set_level s i l bk) = best_bid bk"
  "best_ask (set_level s i l bk) = best_ask bk"
  "nodes (set_level s i l bk) = nodes bk"
  "order_map (set_level s i l bk) = order_map bk"
  "order_pool (set_level s i l bk) = order_pool bk"
  by (simp_all add: set_level_def)

lemma level_at_set_level: "level_at s i (set_level s i l bk) = l"
  by (simp add: level_at_def set_level_def)

lemma level_at_nodes_update: "level_at s i (bk\<lparr>nodes := f\<rparr>) = level_at s i bk"
  by (simp add: level_at_def)

lemma set_level_nodes_update: "nodes (set_level s i l (bk\<lparr>nodes := f\<rparr>)) = f"
  by (simp add: set_level_def)

lemma removeFromBook_fields:
  "best_bid (removeFromBook node s i bk) = best_bid bk"
  "best_ask (removeFromBook node s i bk) = best_ask bk"
  "nodes (removeFromBook node s i bk) = nodes bk"
  by (simp_all add: removeFromBook_def Let_def set_level_fields)

lemma removeFromBook_queue:
  "queue (level_at s i (removeFromBook node s i bk)) = remove1 node (queue (level_at s i bk))"
  by (simp add: removeFromBook_def Let_def level_at_def set_level_def)

lemma executeTrade_fields:
  "best_bid (snd (executeTrade clk node order q bk)) = best_bid bk"
  "best_ask (snd (executeTrade clk node order q bk)) = best_ask bk"
  "nodes (snd (executeTrade clk node order q bk)) = nodes bk"
  "level_at s i (snd (executeTrade clk node order q bk)) = level_at s i bk"
  by (simp_all add: executeTrade_def Let_def level_at_def)

lemma match_step_trade:
  "match_step clk node i order bk = (trade, order1, bk4) \<Longrightarrow>
   trade = \<lparr>buy_order_id =
              (if side (nodes bk node) = BUY then order_id (nodes bk node) else order_id order),
            sell_order_id =
              (if side (nodes bk node) = SELL then order_id (nodes bk node) else order_id order),
            t_price = price (nodes bk node),
            t_quantity = min (quantity order) (quantity (nodes bk node)),
            t_timestamp = clk (trade_count bk)\<rparr>"
  by (auto simp: match_step_def executeTrade_def Let_def)

lemma match_step_order:
  "match_step clk node i order bk = (trade, order1, bk4) \<Longrightarrow>
   order1 = order\<lparr>quantity := quantity order - min (quantity order) (quantity (nodes bk node))\<rparr>"
  by (auto simp: match_step_def Let_def split_beta)

lemma match_step_best:
  "match_step clk node i order bk = (trade, order1, bk4) \<Longrightarrow>
   best_bid bk4 = best_bid bk \<and> best_ask bk4 = best_ask bk"
  by (auto simp: match_step_def Let_def split_beta set_level_fields removeFromBook_fields
      executeTrade_fields)

lemma match_step_nodes:
  "match_step clk node i order bk = (trade, order1, bk4) \<Longrightarrow>
   nodes bk4 = (nodes bk)(node := (nodes bk node)\<lparr>quantity :=
       quantity (nodes bk node) - min (quantity order) (quantity (nodes bk node))\<rparr>)"
  by (auto simp: match_step_def Let_def split_beta set_level_fields removeFromBook_fields
      executeTrade_fields set_level_nodes_update)

lemma sub_min_eq_0: "(b :: 32 word) - min a b = 0 \<longleftrightarrow> b \<le> a"
  by (auto simp: min_def)

lemma match_step_queue:
  "match_step clk node i order bk = (trade, order1, bk4) \<Longrightarrow>
   queue (level_at (opposite (side order)) i bk4) =
     (if quantity (nodes bk node) \<le> quantity order
      then remove1 node (queue (level_at (opposite (side order)) i bk))
      else queue (level_at (opposite (side order)) i bk))"
  by (auto simp: match_step_def Let_def split_beta set_level_fields removeFromBook_fields
      executeTrade_fields set_level_nodes_update removeFromBook_queue level_at_set_level
      level_at_nodes_update sub_min_eq_0)

text \<open>
  The loop ends: a pass either unlinks the head node of the level at the cached best
  price, or leaves the incoming order with quantity 0.
\<close>

lemma match_step_measure:
  assumes "loop_cond order bk"
    and "queue (level_at (opposite (side order))
                  (unat (best_opposite order bk - base_price)) bk) = node # rest"
    and "match_step clk node (unat (best_opposite order bk - base_price)) order bk
           = (trade, order1, bk4)"
  shows "match_measure order1 bk4 < match_measure order bk"
proof -
  let ?i = "unat (best_opposite order bk - base_price)"
  let ?m = "min (quantity order) (quantity (nodes bk node))"
  have q: "quantity order \<noteq> 0"
    using assms(1) by (auto simp: loop_cond_def split: if_splits)
  have o1: "order1 = order\<lparr>quantity := quantity order - ?m\<rparr>"
    using match_step_order[OF assms(3)] .
  have b: "best_opposite order1 bk4 = best_opposite order bk"
    using match_step_best[OF assms(3)] o1 by (simp add: best_opposite_def)
  have s: "side order1 = side order" using o1 by simp
  show ?thesis
  proof (cases "quantity (nodes bk node) \<le> quantity order")
    case True
    then have "queue (level_at (opposite (side order)) ?i bk4) = rest"
      using match_step_queue[OF assms(3)] assms(2) by simp
    then show ?thesis using assms(2) b s by (simp add: match_measure_def)
  next
    case False
    then have "?m = quantity order" by (auto simp: min_def)
    then have z: "quantity order1 = 0" using o1 by simp
    have "queue (level_at (opposite (side order)) ?i bk4) = node # rest"
      using match_step_queue[OF assms(3)] assms(2) False by simp
    then show ?thesis using assms(2) b s z q by (simp add: match_measure_def)
  qed
qed

function match_loop ::
  "(64 word \<Rightarrow> 64 word) \<Rightarrow> Order \<Rightarrow> OrderBook \<Rightarrow> Order \<times> OrderBook \<times> Trade list" where
  "match_loop clk order bk =
     (if loop_cond order bk then
        let level_idx = unat (best_opposite order bk - base_price)
        in if level_idx \<ge> MAX_PRICE_LEVELS then (order, bk, [])
           else
             (case queue (level_at (opposite (side order)) level_idx bk) of
                [] \<Rightarrow> (order, updateBestPrices bk, [])
              | node # _ \<Rightarrow>
                  let (trade, order1, bk4) = match_step clk node level_idx order bk;
                      (order2, bk5, trades) = match_loop clk order1 bk4
                  in (order2, bk5, trade # trades))
      else (order, bk, []))"
  by pat_completeness auto
termination
  apply (relation "measure (\<lambda>(clk, order, bk). match_measure order bk)")
   apply simp
  apply clarsimp
  apply (metis match_step_measure)
  done

text \<open>
  \<open>matchOrder\<close> returns the order as the loop left it (the caller's \<open>mutable_order\<close>),
  the book, and the trades made.
\<close>

definition matchOrder ::
  "(64 word \<Rightarrow> 64 word) \<Rightarrow> Order \<Rightarrow> OrderBook \<Rightarrow> Order \<times> OrderBook \<times> Trade list" where
  "matchOrder clk order bk =
     (let (order1, bk1, trades) = match_loop clk order bk
      in (order1, updateBestPrices bk1, trades))"

definition addOrder ::
  "(64 word \<Rightarrow> 64 word) \<Rightarrow> Order \<Rightarrow> OrderBook \<Rightarrow> bool \<times> Trade list \<times> OrderBook" where
  "addOrder clk order bk =
     (let (mutable_order, bk1, trades) = matchOrder clk order bk;
          bk2 = (if 0 < quantity mutable_order then addToBook mutable_order bk1 else bk1)
      in (True, trades, bk2))"

definition cancelOrder :: "64 word \<Rightarrow> OrderBook \<Rightarrow> bool \<times> OrderBook" where
  "cancelOrder oid bk =
     (case order_map bk oid of
        None \<Rightarrow> (False, bk)
      | Some node \<Rightarrow>
          let n = nodes bk node;
              level_idx = unat (price n - base_price)
          in if level_idx \<ge> MAX_PRICE_LEVELS then (False, bk)
             else
               let level = level_at (side n) level_idx bk;
                   bk1 = set_level (side n) level_idx
                           (level\<lparr>total_quantity := total_quantity level - quantity n\<rparr>) bk;
                   bk2 = removeFromBook node (side n) level_idx bk1
               in (True, updateBestPrices bk2))"

definition modifyOrder :: "64 word \<Rightarrow> 32 word \<Rightarrow> OrderBook \<Rightarrow> bool \<times> OrderBook" where
  "modifyOrder oid new_quantity bk =
     (case order_map bk oid of
        None \<Rightarrow> (False, bk)
      | Some node \<Rightarrow>
          let n = nodes bk node;
              level_idx = unat (price n - base_price)
          in if level_idx \<ge> MAX_PRICE_LEVELS then (False, bk)
             else
               let level = level_at (side n) level_idx bk;
                   bk1 = set_level (side n) level_idx
                           (level\<lparr>total_quantity :=
                                    total_quantity level - quantity n + new_quantity\<rparr>) bk
               in (True, bk1\<lparr>nodes := (nodes bk1)(node := n\<lparr>quantity := new_quantity\<rparr>)\<rparr>))"

section \<open>Auxiliary definitions for the statements\<close>

text \<open>
  The ring's representation invariant: both indices are below \<open>Size\<close>. It holds for a
  new ring and every \<open>push\<close> and \<open>pop\<close> keeps it.
\<close>

definition ring_inv :: "64 word \<Rightarrow> 'a LockFreeQueue \<Rightarrow> bool" where
  "ring_inv Size q = (head q < Size \<and> tail q < Size)"


text \<open>
  An order is booked in a cell, from one book to the next: the cell is linked at the tail
  of the order's level, the level counts one order more, has the order's quantity added
  and carries its price, the directory maps the order's id to the cell and nothing else
  in it changes, and the cell holds the order.
\<close>

definition booked_in :: "Order \<Rightarrow> nat \<Rightarrow> OrderBook \<Rightarrow> OrderBook \<Rightarrow> bool" where
  "booked_in ord cell b b' =
     (let s = side ord; i = unat (price ord - base_price)
      in queue (level_at s i b') = queue (level_at s i b) @ [cell] \<and>
         order_count (level_at s i b') = order_count (level_at s i b) + 1 \<and>
         total_quantity (level_at s i b') = total_quantity (level_at s i b) + quantity ord \<and>
         level_price (level_at s i b') = price ord \<and>
         order_map b' = (order_map b)(order_id ord \<mapsto> cell) \<and>
         nodes b' = (nodes b)(cell := ord))"

section \<open>OrderBook-Engine (OrderBook-Engine/orderbook.cpp)\<close>

text \<open>
  The order of this program has an \<open>int\<close> id and quantity, a \<open>std::string\<close> side and a
  \<open>double\<close> price. Prices are only compared, never computed with, and are reals here.
  Quantities are mathematical integers: a resting order has a positive quantity and a
  trade takes at most the smaller of two positive quantities, so the 32-bit range is
  never left.
\<close>

record EngineOrder =
  e_id :: int
  e_side :: string
  e_price :: real
  e_qty :: int

text \<open>
  The globals \<open>bids\<close> and \<open>asks\<close> are \<open>std::map\<close>s from a price to a \<open>std::queue\<close> of
  orders, \<open>bids\<close> ordered by \<open>greater\<close> and \<open>asks\<close> by \<open>less\<close>. A map is the list of
  its entries in the map's order, so \<open>begin()\<close> is the first entry; a queue is the list of
  its orders, front first. \<open>push_at\<close> is \<open>m[p].push(o)\<close>: \<open>before\<close> is the map's
  comparison.
\<close>

type_synonym price_map = "(real \<times> EngineOrder list) list"

fun push_at ::
  "(real \<Rightarrow> real \<Rightarrow> bool) \<Rightarrow> real \<Rightarrow> EngineOrder \<Rightarrow> price_map \<Rightarrow> price_map" where
  "push_at before p ord [] = [(p, [ord])]"
| "push_at before p ord ((k, q) # m) =
     (if before p k then (p, [ord]) # (k, q) # m
      else if before k p then (k, q) # push_at before p ord m
      else (k, q @ [ord]) # m)"

text \<open>Each line written to \<open>cout\<close> is a trade: the side printed, the quantity, the price.\<close>

record EngineTrade =
  et_side :: string
  et_qty :: int
  et_price :: real

text \<open>
  \<open>q.front()\<close> on an empty queue is undefined behaviour; it is the result \<open>Undefined\<close>.
  The program never stores an empty queue in a map.
\<close>

datatype 'a outcome = Undefined | Done 'a

definition resting :: "price_map \<Rightarrow> nat" where
  "resting m = sum_list (map (\<lambda>(k, q). length q) m)"

definition engine_measure :: "EngineOrder \<Rightarrow> price_map \<Rightarrow> nat" where
  "engine_measure ord m = 2 * resting m + (if 0 < e_qty ord then 1 else 0)"

function buy_loop ::
  "EngineOrder \<Rightarrow> price_map \<Rightarrow> (EngineOrder \<times> price_map \<times> EngineTrade list) outcome" where
  "buy_loop ord asks =
     (case asks of
        [] \<Rightarrow> Done (ord, asks, [])
      | (k, q) # rest \<Rightarrow>
          if 0 < e_qty ord \<and> k \<le> e_price ord then
            (case q of
               [] \<Rightarrow> Undefined
             | sell # q1 \<Rightarrow>
                 let traded = min (e_qty ord) (e_qty sell);
                     ord1 = ord\<lparr>e_qty := e_qty ord - traded\<rparr>;
                     sell1 = sell\<lparr>e_qty := e_qty sell - traded\<rparr>;
                     t = \<lparr>et_side = ''BUY'', et_qty = traded, et_price = e_price sell1\<rparr>;
                     q2 = (if 0 < e_qty sell1 then q1 @ [sell1] else q1);
                     asks1 = (if q2 = [] then rest else (k, q2) # rest)
                 in (case buy_loop ord1 asks1 of
                       Undefined \<Rightarrow> Undefined
                     | Done (ord2, asks2, ts) \<Rightarrow> Done (ord2, asks2, t # ts)))
          else Done (ord, asks, []))"
  by pat_completeness auto
termination
  by (relation "measure (\<lambda>(ord, m). engine_measure ord m)")
     (auto simp: engine_measure_def resting_def min_def split: if_splits)

function sell_loop ::
  "EngineOrder \<Rightarrow> price_map \<Rightarrow> (EngineOrder \<times> price_map \<times> EngineTrade list) outcome" where
  "sell_loop ord bids =
     (case bids of
        [] \<Rightarrow> Done (ord, bids, [])
      | (k, q) # rest \<Rightarrow>
          if 0 < e_qty ord \<and> k \<ge> e_price ord then
            (case q of
               [] \<Rightarrow> Undefined
             | buy # q1 \<Rightarrow>
                 let traded = min (e_qty ord) (e_qty buy);
                     ord1 = ord\<lparr>e_qty := e_qty ord - traded\<rparr>;
                     buy1 = buy\<lparr>e_qty := e_qty buy - traded\<rparr>;
                     t = \<lparr>et_side = ''SELL'', et_qty = traded, et_price = e_price buy1\<rparr>;
                     q2 = (if 0 < e_qty buy1 then q1 @ [buy1] else q1);
                     bids1 = (if q2 = [] then rest else (k, q2) # rest)
                 in (case sell_loop ord1 bids1 of
                       Undefined \<Rightarrow> Undefined
                     | Done (ord2, bids2, ts) \<Rightarrow> Done (ord2, bids2, t # ts)))
          else Done (ord, bids, []))"
  by pat_completeness auto
termination
  by (relation "measure (\<lambda>(ord, m). engine_measure ord m)")
     (auto simp: engine_measure_def resting_def min_def split: if_splits)

record Engine =
  bids :: price_map
  asks :: price_map

definition engine_matchOrder :: "EngineOrder \<Rightarrow> Engine \<Rightarrow> (EngineTrade list \<times> Engine) outcome" where
  "engine_matchOrder ord st =
     (if e_side ord = ''BUY'' then
        (case buy_loop ord (asks st) of
           Undefined \<Rightarrow> Undefined
         | Done (ord1, asks1, ts) \<Rightarrow>
             Done (ts, \<lparr>bids = (if 0 < e_qty ord1
                                then push_at (\<lambda>a b. a > b) (e_price ord1) ord1 (bids st)
                                else bids st),
                        asks = asks1\<rparr>))
      else
        (case sell_loop ord (bids st) of
           Undefined \<Rightarrow> Undefined
         | Done (ord1, bids1, ts) \<Rightarrow>
             Done (ts, \<lparr>bids = bids1,
                        asks = (if 0 < e_qty ord1
                                then push_at (\<lambda>a b. a < b) (e_price ord1) ord1 (asks st)
                                else asks st)\<rparr>)))"

definition engine_buy1 :: EngineOrder where
  "engine_buy1 = \<lparr>e_id = 1, e_side = ''BUY'', e_price = 100, e_qty = 10\<rparr>"

definition engine_buy2 :: EngineOrder where
  "engine_buy2 = \<lparr>e_id = 2, e_side = ''BUY'', e_price = 100, e_qty = 10\<rparr>"

definition engine_sell3 :: EngineOrder where
  "engine_sell3 = \<lparr>e_id = 3, e_side = ''SELL'', e_price = 100, e_qty = 5\<rparr>"

definition engine_empty :: Engine where
  "engine_empty = \<lparr>bids = [], asks = []\<rparr>"

definition engine_asks3 :: Engine where
  "engine_asks3 = \<lparr>bids = [],
     asks = [(101, [\<lparr>e_id = 1, e_side = ''SELL'', e_price = 101, e_qty = 30\<rparr>]),
             (102, [\<lparr>e_id = 2, e_side = ''SELL'', e_price = 102, e_qty = 40\<rparr>]),
             (103, [\<lparr>e_id = 3, e_side = ''SELL'', e_price = 103, e_qty = 50\<rparr>])]\<rparr>"

section \<open>Example orders and books\<close>

text \<open>
  Concrete orders, and the books the HFT order book is in after they are submitted to a new
  book; the lemmas further down derive each book from the one before. Prices are ticks in
  the ladder's range, which starts at \<open>base_price = 10000\<close>.
\<close>

definition clk0 :: "64 word \<Rightarrow> 64 word" where "clk0 = (\<lambda>_. 0)"

definition hft_sell1 :: Order where
  "hft_sell1 = \<lparr>order_id = 1, price = 10101, quantity = 30, side = SELL, timestamp = 0\<rparr>"

definition hft_sell2 :: Order where
  "hft_sell2 = \<lparr>order_id = 2, price = 10102, quantity = 40, side = SELL, timestamp = 0\<rparr>"

definition hft_sell3 :: Order where
  "hft_sell3 = \<lparr>order_id = 3, price = 10103, quantity = 50, side = SELL, timestamp = 0\<rparr>"

definition hft_buy4 :: Order where
  "hft_buy4 = \<lparr>order_id = 4, price = 10103, quantity = 100, side = BUY, timestamp = 0\<rparr>"

definition hft_asks1 :: OrderBook where
  "hft_asks1 = \<lparr>bid_levels = (\<lambda>_. empty_level),
     ask_levels = (\<lambda>_. empty_level)
       (101 := \<lparr>level_price = 10101, total_quantity = 30, order_count = 1, queue = [0]\<rparr>),
     best_bid = 0, best_ask = 10101, num_price_levels = 10000,
     order_pool = \<lparr>free_list = [1 ..< 4096], blocks = [0]\<rparr>,
     nodes = (\<lambda>_. blank_order)(0 := hft_sell1),
     order_map = [1 \<mapsto> 0],
     total_volume = 0, trade_count = 0\<rparr>"

definition hft_asks2 :: OrderBook where
  "hft_asks2 = \<lparr>bid_levels = (\<lambda>_. empty_level),
     ask_levels = (\<lambda>_. empty_level)
       (101 := \<lparr>level_price = 10101, total_quantity = 30, order_count = 1, queue = [0]\<rparr>,
        102 := \<lparr>level_price = 10102, total_quantity = 40, order_count = 1, queue = [1]\<rparr>),
     best_bid = 0, best_ask = 10101, num_price_levels = 10000,
     order_pool = \<lparr>free_list = [2 ..< 4096], blocks = [0]\<rparr>,
     nodes = (\<lambda>_. blank_order)(0 := hft_sell1, 1 := hft_sell2),
     order_map = [1 \<mapsto> 0, 2 \<mapsto> 1],
     total_volume = 0, trade_count = 0\<rparr>"

definition hft_asks3 :: OrderBook where
  "hft_asks3 = \<lparr>bid_levels = (\<lambda>_. empty_level),
     ask_levels = (\<lambda>_. empty_level)
       (101 := \<lparr>level_price = 10101, total_quantity = 30, order_count = 1, queue = [0]\<rparr>,
        102 := \<lparr>level_price = 10102, total_quantity = 40, order_count = 1, queue = [1]\<rparr>,
        103 := \<lparr>level_price = 10103, total_quantity = 50, order_count = 1, queue = [2]\<rparr>),
     best_bid = 0, best_ask = 10101, num_price_levels = 10000,
     order_pool = \<lparr>free_list = [3 ..< 4096], blocks = [0]\<rparr>,
     nodes = (\<lambda>_. blank_order)(0 := hft_sell1, 1 := hft_sell2, 2 := hft_sell3),
     order_map = [1 \<mapsto> 0, 2 \<mapsto> 1, 3 \<mapsto> 2],
     total_volume = 0, trade_count = 0\<rparr>"

definition hft_trade1 :: Trade where
  "hft_trade1 = \<lparr>buy_order_id = 4, sell_order_id = 1, t_price = 10101, t_quantity = 30, t_timestamp = 0\<rparr>"

definition hft_matched1 :: OrderBook where
  "hft_matched1 = \<lparr>bid_levels = (\<lambda>_. empty_level),
     ask_levels = (\<lambda>_. empty_level)
       (101 := \<lparr>level_price = 0, total_quantity = 0, order_count = 0, queue = []\<rparr>,
        102 := \<lparr>level_price = 10102, total_quantity = 40, order_count = 1, queue = [1]\<rparr>,
        103 := \<lparr>level_price = 10103, total_quantity = 50, order_count = 1, queue = [2]\<rparr>),
     best_bid = 0, best_ask = 10101, num_price_levels = 10000,
     order_pool = \<lparr>free_list = 0 # [3 ..< 4096], blocks = [0]\<rparr>,
     nodes = (\<lambda>_. blank_order)(0 := hft_sell1\<lparr>quantity := 0\<rparr>, 1 := hft_sell2, 2 := hft_sell3),
     order_map = [2 \<mapsto> 1, 3 \<mapsto> 2],
     total_volume = 30, trade_count = 1\<rparr>"

definition hft_matched2 :: OrderBook where
  "hft_matched2 = hft_matched1\<lparr>best_ask := 10102\<rparr>"

definition hft_crossed :: OrderBook where
  "hft_crossed = \<lparr>bid_levels = (\<lambda>_. empty_level)
       (103 := \<lparr>level_price = 10103, total_quantity = 70, order_count = 1, queue = [0]\<rparr>),
     ask_levels = (\<lambda>_. empty_level)
       (101 := \<lparr>level_price = 0, total_quantity = 0, order_count = 0, queue = []\<rparr>,
        102 := \<lparr>level_price = 10102, total_quantity = 40, order_count = 1, queue = [1]\<rparr>,
        103 := \<lparr>level_price = 10103, total_quantity = 50, order_count = 1, queue = [2]\<rparr>),
     best_bid = 10103, best_ask = 10102, num_price_levels = 10000,
     order_pool = \<lparr>free_list = [3 ..< 4096], blocks = [0]\<rparr>,
     nodes = (\<lambda>_. blank_order)(1 := hft_sell2, 2 := hft_sell3, 0 := hft_buy4\<lparr>quantity := 70\<rparr>),
     order_map = [2 \<mapsto> 1, 3 \<mapsto> 2, 4 \<mapsto> 0],
     total_volume = 30, trade_count = 1\<rparr>"

definition hft_bidA :: Order where
  "hft_bidA = \<lparr>order_id = 1, price = 10050, quantity = 10, side = BUY, timestamp = 0\<rparr>"

definition hft_bidB :: Order where
  "hft_bidB = \<lparr>order_id = 2, price = 10050, quantity = 10, side = BUY, timestamp = 0\<rparr>"

definition hft_bids1 :: OrderBook where
  "hft_bids1 = \<lparr>bid_levels = (\<lambda>_. empty_level)
       (50 := \<lparr>level_price = 10050, total_quantity = 10, order_count = 1, queue = [0]\<rparr>),
     ask_levels = (\<lambda>_. empty_level),
     best_bid = 10050, best_ask = UINT64_MAX, num_price_levels = 10000,
     order_pool = \<lparr>free_list = [1 ..< 4096], blocks = [0]\<rparr>,
     nodes = (\<lambda>_. blank_order)(0 := hft_bidA),
     order_map = [1 \<mapsto> 0],
     total_volume = 0, trade_count = 0\<rparr>"

definition hft_bids2 :: OrderBook where
  "hft_bids2 = \<lparr>bid_levels = (\<lambda>_. empty_level)
       (50 := \<lparr>level_price = 10050, total_quantity = 20, order_count = 2, queue = [0, 1]\<rparr>),
     ask_levels = (\<lambda>_. empty_level),
     best_bid = 10050, best_ask = UINT64_MAX, num_price_levels = 10000,
     order_pool = \<lparr>free_list = [2 ..< 4096], blocks = [0]\<rparr>,
     nodes = (\<lambda>_. blank_order)(0 := hft_bidA, 1 := hft_bidB),
     order_map = [1 \<mapsto> 0, 2 \<mapsto> 1],
     total_volume = 0, trade_count = 0\<rparr>"

definition hft_sell49 :: Order where
  "hft_sell49 = \<lparr>order_id = 3, price = 10049, quantity = 4, side = SELL, timestamp = 0\<rparr>"

definition hft_zero_buy :: Order where
  "hft_zero_buy = \<lparr>order_id = 9, price = 10101, quantity = 0, side = BUY, timestamp = 0\<rparr>"

definition hft_low_buy :: Order where
  "hft_low_buy = \<lparr>order_id = 8, price = 5, quantity = 10, side = BUY, timestamp = 0\<rparr>"

text \<open>A client submitting orders one after the other: the trades made, in order.\<close>

fun addOrders ::
  "(64 word \<Rightarrow> 64 word) \<Rightarrow> Order list \<Rightarrow> OrderBook \<Rightarrow> Trade list \<times> OrderBook" where
  "addOrders clk [] bk = ([], bk)"
| "addOrders clk (ord # ords) bk =
     (let (ok, ts, bk1) = addOrder clk ord bk;
          (ts', bk2) = addOrders clk ords bk1
      in (ts @ ts', bk2))"

text \<open>
  Any sequence of calls of the public operations, made one after the other on a book. The
  books reached from \<open>new_book n\<close> by such sequences are all the books the operations can
  be called on.
\<close>

datatype book_call =
    Call_addOrder Order
  | Call_cancelOrder "64 word"
  | Call_modifyOrder "64 word" "32 word"

fun apply_call :: "(64 word \<Rightarrow> 64 word) \<Rightarrow> book_call \<Rightarrow> OrderBook \<Rightarrow> OrderBook" where
  "apply_call clk (Call_addOrder order) bk = snd (snd (addOrder clk order bk))"
| "apply_call clk (Call_cancelOrder oid) bk = snd (cancelOrder oid bk)"
| "apply_call clk (Call_modifyOrder oid q) bk = snd (modifyOrder oid q bk)"

fun run_calls :: "(64 word \<Rightarrow> 64 word) \<Rightarrow> book_call list \<Rightarrow> OrderBook \<Rightarrow> OrderBook" where
  "run_calls clk [] bk = bk"
| "run_calls clk (c # cs) bk = run_calls clk cs (apply_call clk c bk)"

text \<open>
  A pool filled through \<open>addOrder\<close>: 4096 sells of quantity 1 at 10101, with ids 0 to
  4095. \<open>hft_unit_book n\<close> is the book after the first \<open>n\<close> of them; after all of them
  every cell of the pool's one block holds a resting order. \<open>hft_sell_10200\<close> is a sell
  that arrives then and crosses nothing; \<open>hft_buy_one\<close> is a buy that arrives then and
  is filled completely by the oldest of the sells.
\<close>

definition hft_unit_sell :: "nat \<Rightarrow> Order" where
  "hft_unit_sell i =
     \<lparr>order_id = of_nat i, price = 10101, quantity = 1, side = SELL, timestamp = 0\<rparr>"

definition hft_unit_book :: "nat \<Rightarrow> OrderBook" where
  "hft_unit_book n =
     (if n = 0 then new_book 10000
      else \<lparr>bid_levels = (\<lambda>_. empty_level),
            ask_levels = (\<lambda>_. empty_level)
              (101 := \<lparr>level_price = 10101, total_quantity = of_nat n,
                        order_count = of_nat n, queue = [0 ..< n]\<rparr>),
            best_bid = 0, best_ask = 10101, num_price_levels = 10000,
            order_pool = \<lparr>free_list = [n ..< 4096], blocks = [0]\<rparr>,
            nodes = (\<lambda>i. if i < n then hft_unit_sell i else blank_order),
            order_map = (\<lambda>k. if unat k < n then Some (unat k) else None),
            total_volume = 0, trade_count = 0\<rparr>)"

definition hft_full_book :: OrderBook where
  "hft_full_book = snd (addOrders clk0 (map hft_unit_sell [0 ..< 4096]) (new_book 10000))"

definition hft_sell_10200 :: Order where
  "hft_sell_10200 = \<lparr>order_id = 5000, price = 10200, quantity = 5, side = SELL, timestamp = 0\<rparr>"

definition hft_buy_one :: Order where
  "hft_buy_one = \<lparr>order_id = 7000, price = 10101, quantity = 1, side = BUY, timestamp = 0\<rparr>"

text \<open>A pool with blocks of two cells, after both cells were handed out.\<close>

definition exhausted_pool :: MemoryPool where
  "exhausted_pool = snd (allocate 2 (snd (allocate 2 (new_pool 2))))"

section \<open>Facts about the matching loop\<close>

text \<open>
  The free list of a pool is an interval \<open>[i ..< 4096]\<close> in the examples below; the
  simplifier must not enumerate it.
\<close>

declare upt_rec_numeral [simp del]

declare match_loop.simps [simp del]

lemma match_loop_stop:
  "\<not> loop_cond order bk \<Longrightarrow> match_loop clk order bk = (order, bk, [])"
  by (subst match_loop.simps) simp

lemma match_loop_range:
  "MAX_PRICE_LEVELS \<le> unat (best_opposite order bk - base_price) \<Longrightarrow>
   match_loop clk order bk = (order, bk, [])"
  by (subst match_loop.simps) (simp add: Let_def)

lemma match_loop_empty:
  "loop_cond order bk \<Longrightarrow> unat (best_opposite order bk - base_price) < MAX_PRICE_LEVELS \<Longrightarrow>
   queue (level_at (opposite (side order)) (unat (best_opposite order bk - base_price)) bk) = [] \<Longrightarrow>
   match_loop clk order bk = (order, updateBestPrices bk, [])"
  by (subst match_loop.simps) (simp add: Let_def)

lemma match_loop_step:
  "loop_cond order bk \<Longrightarrow> unat (best_opposite order bk - base_price) < MAX_PRICE_LEVELS \<Longrightarrow>
   queue (level_at (opposite (side order)) (unat (best_opposite order bk - base_price)) bk) = node # rest \<Longrightarrow>
   match_step clk node (unat (best_opposite order bk - base_price)) order bk = (trade, order1, bk4) \<Longrightarrow>
   match_loop clk order1 bk4 = (order2, bk5, trades) \<Longrightarrow>
   match_loop clk order bk = (order2, bk5, trade # trades)"
  by (subst match_loop.simps) (simp add: Let_def)

lemma match_loop_cases [consumes 0, case_names stop range empty step]:
  assumes "\<And>order bk. \<not> loop_cond order bk \<Longrightarrow> P order bk (order, bk, [])"
    and "\<And>order bk. loop_cond order bk \<Longrightarrow>
           MAX_PRICE_LEVELS \<le> unat (best_opposite order bk - base_price) \<Longrightarrow>
           P order bk (order, bk, [])"
    and "\<And>order bk. loop_cond order bk \<Longrightarrow>
           unat (best_opposite order bk - base_price) < MAX_PRICE_LEVELS \<Longrightarrow>
           queue (level_at (opposite (side order))
                   (unat (best_opposite order bk - base_price)) bk) = [] \<Longrightarrow>
           P order bk (order, updateBestPrices bk, [])"
    and "\<And>order bk node rest trade order1 bk4 order2 bk5 trades.
           loop_cond order bk \<Longrightarrow>
           unat (best_opposite order bk - base_price) < MAX_PRICE_LEVELS \<Longrightarrow>
           queue (level_at (opposite (side order))
                   (unat (best_opposite order bk - base_price)) bk) = node # rest \<Longrightarrow>
           match_step clk node (unat (best_opposite order bk - base_price)) order bk
             = (trade, order1, bk4) \<Longrightarrow>
           match_loop clk order1 bk4 = (order2, bk5, trades) \<Longrightarrow>
           P order1 bk4 (order2, bk5, trades) \<Longrightarrow>
           P order bk (order2, bk5, trade # trades)"
  shows "P order bk (match_loop clk order bk)"
proof (induction "match_measure order bk" arbitrary: order bk rule: less_induct)
  case less
  let ?i = "unat (best_opposite order bk - base_price)"
  show ?case
  proof (cases "loop_cond order bk")
    case False
    then show ?thesis using assms(1) by (simp add: match_loop_stop)
  next
    case lc: True
    show ?thesis
    proof (cases "MAX_PRICE_LEVELS \<le> ?i")
      case True
      then show ?thesis using assms(2) lc by (simp add: match_loop_range)
    next
      case False
      then have lt: "?i < MAX_PRICE_LEVELS" by simp
      show ?thesis
      proof (cases "queue (level_at (opposite (side order)) ?i bk)")
        case Nil
        then show ?thesis using assms(3) lc lt by (simp add: match_loop_empty)
      next
        case (Cons node rest)
        obtain trade order1 bk4 where st: "match_step clk node ?i order bk = (trade, order1, bk4)"
          by (metis prod_cases3)
        obtain order2 bk5 trades where ml: "match_loop clk order1 bk4 = (order2, bk5, trades)"
          by (metis prod_cases3)
        have "P order1 bk4 (match_loop clk order1 bk4)"
          using less match_step_measure[OF lc Cons st] by simp
        then have "P order bk (order2, bk5, trade # trades)"
          using assms(4)[OF lc lt Cons st ml] ml by simp
        then show ?thesis using match_loop_step[OF lc lt Cons st ml] by simp
      qed
    qed
  qed
qed


lemma loop_cond_quantity: "loop_cond order bk \<Longrightarrow> 0 < quantity order"
  by (auto simp: loop_cond_def split: if_splits)

lemma match_loop_conserves:
  "(\<Sum>t\<leftarrow>snd (snd (match_loop clk order bk)). unat (t_quantity t))
     + unat (quantity (fst (match_loop clk order bk))) = unat (quantity order)"
proof (rule match_loop_cases[where P = "\<lambda>order bk r.
    (\<Sum>t\<leftarrow>snd (snd r). unat (t_quantity t)) + unat (quantity (fst r)) = unat (quantity order)"],
    goal_cases)
  case (4 order bk node rest trade order1 bk4 order2 bk5 trades)
  let ?m = "min (quantity order) (quantity (nodes bk node))"
  have m: "?m \<le> quantity order" by simp
  have q1: "quantity order1 = quantity order - ?m"
    using match_step_order[OF 4(4)] by (metis Order.select_convs(3) Order.surjective Order.update_convs(3))
  have tq: "t_quantity trade = ?m" using match_step_trade[OF 4(4)] by simp
  have "unat (quantity order1) = unat (quantity order) - unat ?m"
    using q1 m by (simp add: unat_sub)
  moreover have "unat ?m \<le> unat (quantity order)" using m by (simp add: word_le_nat_alt)
  ultimately show ?case using 4(6) tq by simp
qed simp_all

lemma match_loop_trade_prices:
  "map t_price (snd (snd (match_loop clk order bk))) =
     map (\<lambda>n. price (nodes bk n))
       (take (length (snd (snd (match_loop clk order bk))))
          (queue (level_at (opposite (side order))
                    (unat (best_opposite order bk - base_price)) bk)))"
proof (rule match_loop_cases[where P = "\<lambda>order bk r.
    map t_price (snd (snd r)) =
     map (\<lambda>n. price (nodes bk n))
       (take (length (snd (snd r)))
          (queue (level_at (opposite (side order))
                    (unat (best_opposite order bk - base_price)) bk)))"],
    goal_cases)
  case (4 order bk node rest trade order1 bk4 order2 bk5 trades)
  let ?i = "unat (best_opposite order bk - base_price)"
  let ?m = "min (quantity order) (quantity (nodes bk node))"
  have o1: "order1 = order\<lparr>quantity := quantity order - ?m\<rparr>"
    using match_step_order[OF 4(4)] .
  have s1: "side order1 = side order" using o1 by simp
  have b1: "best_opposite order1 bk4 = best_opposite order bk"
    using match_step_best[OF 4(4)] s1 by (simp add: best_opposite_def)
  have tp: "t_price trade = price (nodes bk node)" using match_step_trade[OF 4(4)] by simp
  have pr: "price (nodes bk4 n) = price (nodes bk n)" for n
    using match_step_nodes[OF 4(4)] by simp
  show ?case
  proof (cases "quantity (nodes bk node) \<le> quantity order")
    case True
    have "queue (level_at (opposite (side order)) ?i bk4) = rest"
      using match_step_queue[OF 4(4)] True 4(3) by simp
    then show ?thesis using 4(6) s1 b1 tp pr 4(3) by simp
  next
    case False
    then have "?m = quantity order" by (auto simp: min_def)
    then have "quantity order1 = 0" using o1 by simp
    then have "\<not> loop_cond order1 bk4" by (auto simp: loop_cond_def)
    then have "trades = []" using 4(5) by (simp add: match_loop_stop)
    then show ?thesis using tp 4(3) by simp
  qed
qed simp_all


lemma match_loop_keeps_order:
  "fst (match_loop clk order bk) = order\<lparr>quantity := quantity (fst (match_loop clk order bk))\<rparr>"
proof (rule match_loop_cases[where P = "\<lambda>order bk r. fst r = order\<lparr>quantity := quantity (fst r)\<rparr>"],
    goal_cases)
  case (4 order bk node rest trade order1 bk4 order2 bk5 trades)
  have "order2 = order1\<lparr>quantity := quantity order2\<rparr>" using 4(6) by simp
  then have "order2 = order\<lparr>quantity := quantity order - min (quantity order) (quantity (nodes bk node)),
      quantity := quantity order2\<rparr>"
    using match_step_order[OF 4(4)] by simp
  then show ?case by simp
qed simp_all

lemma matchOrder_price:
  "price (fst (matchOrder clk order bk)) = price order"
proof -
  have "price (fst (match_loop clk order bk)) = price order"
    by (subst match_loop_keeps_order) simp
  then show ?thesis by (simp add: matchOrder_def split_beta Let_def)
qed

lemma level_idx_out_of_range:
  "price order < base_price \<or> unat base_price + MAX_PRICE_LEVELS \<le> unat (price order)
   \<longleftrightarrow> MAX_PRICE_LEVELS \<le> unat (price order - base_price)"
  by (auto simp: base_price_def MAX_PRICE_LEVELS_def word_less_nat_alt unat_sub_if')


text \<open>
  Time priority inside a level of the HFT book: a resting order that is only partly
  filled stays where it is, at the head, and a new order is linked at the tail.
\<close>

lemma match_step_partial_fill_keeps_queue:
  assumes "match_step clk node i order bk = (trade, order1, bk4)"
    and "quantity order < quantity (nodes bk node)"
  shows "queue (level_at (opposite (side order)) i bk4)
           = queue (level_at (opposite (side order)) i bk)"
proof -
  have "\<not> quantity (nodes bk node) \<le> quantity order"
    using assms(2) by (simp add: not_le)
  then show ?thesis using match_step_queue [OF assms(1)] by simp
qed

lemma addToBook_appends:
  assumes "unat (price order - base_price) < MAX_PRICE_LEVELS"
  shows "queue (level_at (side order) (unat (price order - base_price)) (addToBook order bk))
           = queue (level_at (side order) (unat (price order - base_price)) bk)
             @ [fst (allocate 4096 (order_pool bk))]"
  using assms
  by (simp add: addToBook_def Let_def split_beta updateBestPrices_def level_at_def set_level_def)

subsection \<open>The ring\<close>

lemma and_size_mask: "k < 64 \<Longrightarrow> (w :: 64 word) AND (2 ^ k - 1) = take_bit k w"
  by (simp add: take_bit_eq_mask mask_eq_exp_minus_1)

lemma pow2_lt_64: "k < 64 \<Longrightarrow> (2::nat) ^ k < 2 ^ 64"
  by (rule power_strict_increasing) simp_all

lemma unat_next:
  assumes "k < 64"
  shows "unat (((w :: 64 word) + 1) AND (2 ^ k - 1)) = (unat w + 1) mod 2 ^ k"
proof -
  have d: "(2::nat) ^ k dvd 2 ^ 64" using assms by (intro le_imp_power_dvd) simp
  have "unat ((w + 1) AND (2 ^ k - 1)) = unat (w + 1) mod 2 ^ k"
    using assms by (simp only: and_size_mask unsigned_take_bit_eq) (simp add: take_bit_eq_mod)
  also have "unat (w + 1) = (unat w + 1) mod 2 ^ 64"
    by (simp add: unat_word_ariths)
  also have "(unat w + 1) mod 2 ^ 64 mod 2 ^ k = (unat w + 1) mod 2 ^ k"
    using d by (rule mod_mod_cancel)
  finally show ?thesis .
qed

lemma unat_size: 
  assumes "k < 64" shows "unat ((2::64 word) ^ k) = 2 ^ k"
proof -
  have "(2::64 word) ^ k = of_nat (2 ^ k)" by simp
  then have "unat ((2::64 word) ^ k) = 2 ^ k mod 2 ^ 64"
    by (simp only: unat_of_nat) simp
  then show ?thesis using pow2_lt_64[OF assms] by simp
qed


lemma next_index_less:
  assumes "k < 64"
  shows "((w :: 64 word) + 1) AND (2 ^ k - 1) < 2 ^ k"
proof -
  have "unat ((w + 1) AND (2 ^ k - 1)) < 2 ^ k"
    using unat_next[OF assms, of w] by simp
  then show ?thesis using assms by (simp add: word_less_nat_alt unat_size)
qed

lemma ring_inv_new: "k < 64 \<Longrightarrow> ring_inv (2 ^ k) (new_queue buf)"
  by (simp add: ring_inv_def new_queue_def word_less_nat_alt unat_size)


lemma ring_inv_pop:
  "k < 64 \<Longrightarrow> ring_inv (2 ^ k) q \<Longrightarrow> ring_inv (2 ^ k) (snd (pop (2 ^ k) q))"
  by (simp add: ring_inv_def pop_def Let_def next_index_less)








subsection \<open>The HFT book on the example orders\<close>

lemma find_upt_Some:
  "i < n \<Longrightarrow> P i \<Longrightarrow> \<forall>j<i. \<not> P j \<Longrightarrow> find P [0 ..< n] = Some i"
  by (auto simp: find_Some_iff intro!: exI[of _ i])

lemma find_upt_None: "\<forall>j<n. \<not> P j \<Longrightarrow> find P [0 ..< n] = None"
  by (auto simp: find_None_iff)

lemma find_rev_upt_Some:
  "i < n \<Longrightarrow> P i \<Longrightarrow> \<forall>j. i < j \<and> j < n \<longrightarrow> \<not> P j \<Longrightarrow> find P (rev [0 ..< n]) = Some i"
  by (auto simp: find_Some_iff rev_nth intro!: exI[of _ "n - 1 - i"])

lemma find_rev_upt_None: "\<forall>j<n. \<not> P j \<Longrightarrow> find P (rev [0 ..< n]) = None"
  by (auto simp: find_None_iff)

lemma updateBestPrices_new_book: "updateBestPrices (new_book n) = new_book n"
  by (simp add: updateBestPrices_def new_book_def find_upt_None find_rev_upt_None empty_level_def)

lemma new_book_10000: "new_book 10000 = \<lparr>bid_levels = (\<lambda>_. empty_level), ask_levels = (\<lambda>_. empty_level),
      best_bid = 0, best_ask = UINT64_MAX,
      num_price_levels = 10000,
      order_pool = \<lparr>free_list = [0 ..< 4096], blocks = [0]\<rparr>, nodes = (\<lambda>_. blank_order), order_map = Map.empty,
      total_volume = 0, trade_count = 0\<rparr>"
  by (simp add: new_book_def MAX_PRICE_LEVELS_def new_pool_def expandPool_def)

lemma allocate_upt: "i < j \<Longrightarrow> allocate bs \<lparr>free_list = [i ..< j], blocks = b\<rparr>
   = (i, \<lparr>free_list = [Suc i ..< j], blocks = b\<rparr>)"
  by (simp add: allocate_def Let_def del: upt_rec_numeral)

lemma matchOrder_no_cross:
  "\<not> loop_cond order bk \<Longrightarrow> matchOrder clk order bk = (order, updateBestPrices bk, [])"
  by (simp add: matchOrder_def match_loop_stop)

lemma add_sell1: "addOrder clk0 hft_sell1 (new_book 10000) = (True, [], hft_asks1)"
proof -
  have m: "matchOrder clk0 hft_sell1 (new_book 10000) = (hft_sell1, new_book 10000, [])"
  proof -
    have "\<not> loop_cond hft_sell1 (new_book 10000)" by (simp add: loop_cond_def hft_sell1_def new_book_def)
    then show ?thesis using matchOrder_no_cross updateBestPrices_new_book by simp
  qed
  have a: "addToBook hft_sell1 (new_book 10000) = hft_asks1"
    unfolding new_book_10000
    apply (simp add: addToBook_def Let_def hft_sell1_def base_price_def allocate_upt
        level_at_def set_level_def empty_level_def MAX_PRICE_LEVELS_def del: upt_rec_numeral)
    apply (simp add: updateBestPrices_def find_rev_upt_None empty_level_def find_upt_Some[where i=101] MAX_PRICE_LEVELS_def
       hft_asks1_def hft_sell1_def del: upt_rec_numeral)
    done
  show ?thesis by (simp add: addOrder_def m a) (simp add: hft_sell1_def)
qed

lemma add_sell2: "addOrder clk0 hft_sell2 hft_asks1 = (True, [], hft_asks2)"
proof -
  have u: "updateBestPrices hft_asks1 = hft_asks1"
    by (simp add: hft_asks1_def updateBestPrices_def find_rev_upt_None empty_level_def find_upt_Some[where i=101] MAX_PRICE_LEVELS_def)
  have m: "matchOrder clk0 hft_sell2 hft_asks1 = (hft_sell2, hft_asks1, [])"
  proof -
    have "\<not> loop_cond hft_sell2 hft_asks1" by (simp add: loop_cond_def hft_sell2_def hft_asks1_def)
    then show ?thesis using matchOrder_no_cross u by simp
  qed
  have a: "addToBook hft_sell2 hft_asks1 = hft_asks2"
    unfolding hft_asks1_def
    apply (simp add: addToBook_def Let_def hft_sell2_def base_price_def allocate_upt
        level_at_def set_level_def empty_level_def MAX_PRICE_LEVELS_def del: upt_rec_numeral)
    apply (simp add: updateBestPrices_def find_rev_upt_None empty_level_def find_upt_Some[where i=101] MAX_PRICE_LEVELS_def
       hft_asks2_def hft_sell2_def numeral_2_eq_2[symmetric] del: upt_rec_numeral)
    done
  show ?thesis by (simp add: addOrder_def m a) (simp add: hft_sell2_def)
qed

lemma add_sell3: "addOrder clk0 hft_sell3 hft_asks2 = (True, [], hft_asks3)"
proof -
  have u: "updateBestPrices hft_asks2 = hft_asks2"
    by (simp add: hft_asks2_def updateBestPrices_def find_rev_upt_None empty_level_def find_upt_Some[where i=101] MAX_PRICE_LEVELS_def)
  have m: "matchOrder clk0 hft_sell3 hft_asks2 = (hft_sell3, hft_asks2, [])"
  proof -
    have "\<not> loop_cond hft_sell3 hft_asks2" by (simp add: loop_cond_def hft_sell3_def hft_asks2_def)
    then show ?thesis using matchOrder_no_cross u by simp
  qed
  have a: "addToBook hft_sell3 hft_asks2 = hft_asks3"
    unfolding hft_asks2_def
    apply (simp add: addToBook_def Let_def hft_sell3_def base_price_def allocate_upt
        level_at_def set_level_def empty_level_def MAX_PRICE_LEVELS_def del: upt_rec_numeral)
    apply (simp add: updateBestPrices_def find_rev_upt_None empty_level_def find_upt_Some[where i=101] MAX_PRICE_LEVELS_def
       hft_asks3_def hft_sell3_def del: upt_rec_numeral)
    done
  show ?thesis by (simp add: addOrder_def m a) (simp add: hft_sell3_def)
qed

lemma step_buy4: "match_step clk0 0 101 hft_buy4 hft_asks3 = (hft_trade1, hft_buy4\<lparr>quantity := 70\<rparr>, hft_matched1)"
  apply (simp add: match_step_def Let_def hft_asks3_def hft_buy4_def opposite_def executeTrade_def hft_sell1_def
     level_at_def set_level_def removeFromBook_def deallocate_def clk0_def hft_trade1_def del: upt_rec_numeral)
  apply (simp add: hft_matched1_def hft_sell1_def fun_upd_twist del: upt_rec_numeral)
  done

lemma update_matched1: "updateBestPrices hft_matched1 = hft_matched2"
  by (simp add: hft_matched2_def hft_matched1_def updateBestPrices_def find_rev_upt_None empty_level_def
      find_upt_Some[where i=102] MAX_PRICE_LEVELS_def less_Suc_eq del: upt_rec_numeral)

lemma update_matched2: "updateBestPrices hft_matched2 = hft_matched2"
  by (simp add: hft_matched2_def hft_matched1_def updateBestPrices_def find_rev_upt_None empty_level_def
      find_upt_Some[where i=102] MAX_PRICE_LEVELS_def del: upt_rec_numeral)

lemma loop_buy4: "match_loop clk0 hft_buy4 hft_asks3 = (hft_buy4\<lparr>quantity := 70\<rparr>, hft_matched2, [hft_trade1])"
proof -
  have c1: "loop_cond hft_buy4 hft_asks3"
    by (simp add: loop_cond_def hft_buy4_def hft_asks3_def UINT64_MAX_def)
  have i1: "unat (best_opposite hft_buy4 hft_asks3 - base_price) = 101"
    by (simp add: best_opposite_def hft_buy4_def hft_asks3_def base_price_def)
  have q1: "queue (level_at (opposite (side hft_buy4)) 101 hft_asks3) = [0]"
    by (simp add: level_at_def opposite_def hft_buy4_def hft_asks3_def)
  have c2: "loop_cond (hft_buy4\<lparr>quantity := 70\<rparr>) hft_matched1"
    by (simp add: loop_cond_def hft_buy4_def hft_matched1_def UINT64_MAX_def)
  have i2: "unat (best_opposite (hft_buy4\<lparr>quantity := 70\<rparr>) hft_matched1 - base_price) = 101"
    by (simp add: best_opposite_def hft_buy4_def hft_matched1_def base_price_def)
  have q2: "queue (level_at (opposite (side (hft_buy4\<lparr>quantity := 70\<rparr>))) 101 hft_matched1) = []"
    by (simp add: level_at_def opposite_def hft_buy4_def hft_matched1_def)
  have l2: "match_loop clk0 (hft_buy4\<lparr>quantity := 70\<rparr>) hft_matched1
              = (hft_buy4\<lparr>quantity := 70\<rparr>, hft_matched2, [])"
    using match_loop_empty[OF c2, of clk0] i2 q2
    by (simp add: MAX_PRICE_LEVELS_def update_matched1)
  show ?thesis
    using match_loop_step[OF c1, of 0 "[]" clk0 hft_trade1 "hft_buy4\<lparr>quantity := 70\<rparr>" hft_matched1, OF _ _ _ l2] i1 q1 step_buy4
    by (simp add: MAX_PRICE_LEVELS_def)
qed

lemma add_buy4: "addOrder clk0 hft_buy4 hft_asks3 = (True, [hft_trade1], hft_crossed)"
proof -
  have a: "addToBook (hft_buy4\<lparr>quantity := 70\<rparr>) hft_matched2 = hft_crossed"
    unfolding hft_matched2_def hft_matched1_def
    apply (simp add: addToBook_def Let_def hft_buy4_def base_price_def allocate_def
        level_at_def set_level_def empty_level_def MAX_PRICE_LEVELS_def del: upt_rec_numeral)
    apply (simp add: updateBestPrices_def find_rev_upt_Some[where i=103] empty_level_def find_upt_Some[where i=102] MAX_PRICE_LEVELS_def
       hft_crossed_def hft_buy4_def less_Suc_eq del: upt_rec_numeral)
    done
  show ?thesis by (simp add: addOrder_def matchOrder_def loop_buy4 update_matched2 a)
qed

subsection \<open>The pool\<close>

lemma allocate_free_list_nonempty:
  "0 < BlockSize \<Longrightarrow> free_list (if free_list p = [] then expandPool BlockSize p else p) \<noteq> []"
  by (simp add: expandPool_def Let_def)

lemma exhausted_pool_eq: "exhausted_pool = \<lparr>free_list = [], blocks = [0]\<rparr>"
  by (simp add: exhausted_pool_def allocate_def new_pool_def expandPool_def Let_def upt_conv_Cons)

lemma updateBestPrices_fields:
  "order_map (updateBestPrices bk) = order_map bk"
  "nodes (updateBestPrices bk) = nodes bk"
  "order_pool (updateBestPrices bk) = order_pool bk"
  "bid_levels (updateBestPrices bk) = bid_levels bk"
  "ask_levels (updateBestPrices bk) = ask_levels bk"
  by (simp_all add: updateBestPrices_def)

lemma add_bidA: "addOrder clk0 hft_bidA (new_book 10000) = (True, [], hft_bids1)"
proof -
  have m: "matchOrder clk0 hft_bidA (new_book 10000) = (hft_bidA, new_book 10000, [])"
  proof -
    have "\<not> loop_cond hft_bidA (new_book 10000)"
      by (simp add: loop_cond_def hft_bidA_def new_book_def)
    then show ?thesis using matchOrder_no_cross updateBestPrices_new_book by simp
  qed
  have a: "addToBook hft_bidA (new_book 10000) = hft_bids1"
    unfolding new_book_10000
    apply (simp add: addToBook_def Let_def hft_bidA_def base_price_def allocate_upt
        level_at_def set_level_def empty_level_def MAX_PRICE_LEVELS_def del: upt_rec_numeral)
    apply (simp add: updateBestPrices_def find_upt_None empty_level_def
        find_rev_upt_Some[where i=50] MAX_PRICE_LEVELS_def hft_bids1_def hft_bidA_def
        del: upt_rec_numeral)
    done
  show ?thesis by (simp add: addOrder_def m a) (simp add: hft_bidA_def)
qed

lemma update_bids1: "updateBestPrices hft_bids1 = hft_bids1"
  by (simp add: hft_bids1_def updateBestPrices_def find_upt_None empty_level_def
      find_rev_upt_Some[where i=50] MAX_PRICE_LEVELS_def)

lemma add_bidB: "addOrder clk0 hft_bidB hft_bids1 = (True, [], hft_bids2)"
proof -
  have m: "matchOrder clk0 hft_bidB hft_bids1 = (hft_bidB, hft_bids1, [])"
  proof -
    have "\<not> loop_cond hft_bidB hft_bids1"
      by (simp add: loop_cond_def hft_bidB_def hft_bids1_def)
    then show ?thesis using matchOrder_no_cross update_bids1 by simp
  qed
  have a: "addToBook hft_bidB hft_bids1 = hft_bids2"
    unfolding hft_bids1_def
    apply (simp add: addToBook_def Let_def hft_bidB_def base_price_def allocate_upt
        level_at_def set_level_def empty_level_def MAX_PRICE_LEVELS_def del: upt_rec_numeral)
    apply (simp add: updateBestPrices_def find_upt_None empty_level_def
        find_rev_upt_Some[where i=50] MAX_PRICE_LEVELS_def hft_bids2_def hft_bidB_def
        numeral_2_eq_2[symmetric] del: upt_rec_numeral)
    done
  show ?thesis by (simp add: addOrder_def m a) (simp add: hft_bidB_def)
qed

lemma modify_bidA:
  "modifyOrder 1 25 hft_bids2 =
     (True, hft_bids2\<lparr>bid_levels := (bid_levels hft_bids2)
                (50 := \<lparr>level_price = 10050, total_quantity = 35, order_count = 2, queue = [0, 1]\<rparr>),
              nodes := (nodes hft_bids2)(0 := hft_bidA\<lparr>quantity := 25\<rparr>)\<rparr>)"
  by (simp add: modifyOrder_def hft_bids2_def hft_bidA_def base_price_def MAX_PRICE_LEVELS_def
      level_at_def set_level_def Let_def)

lemma add_sell49:
  "fst (snd (addOrder clk0 hft_sell49 hft_bids2)) =
     [\<lparr>buy_order_id = 1, sell_order_id = 3, t_price = 10050, t_quantity = 4, t_timestamp = 0\<rparr>]"
proof -
  let ?t = "\<lparr>buy_order_id = 1, sell_order_id = 3, t_price = 10050, t_quantity = 4, t_timestamp = 0\<rparr>"
  have c1: "loop_cond hft_sell49 hft_bids2"
    by (simp add: loop_cond_def hft_sell49_def hft_bids2_def)
  have i1: "unat (best_opposite hft_sell49 hft_bids2 - base_price) = 50"
    by (simp add: best_opposite_def hft_sell49_def hft_bids2_def base_price_def)
  have q1: "queue (level_at (opposite (side hft_sell49)) 50 hft_bids2) = [0, 1]"
    by (simp add: level_at_def opposite_def hft_sell49_def hft_bids2_def)
  obtain bk4 where st: "match_step clk0 0 50 hft_sell49 hft_bids2 = (?t, hft_sell49\<lparr>quantity := 0\<rparr>, bk4)"
    by (simp add: match_step_def Let_def executeTrade_def hft_sell49_def hft_bids2_def hft_bidA_def
        clk0_def split_beta)
  have l2: "match_loop clk0 (hft_sell49\<lparr>quantity := 0\<rparr>) bk4 = (hft_sell49\<lparr>quantity := 0\<rparr>, bk4, [])"
    by (rule match_loop_stop) (simp add: loop_cond_def)
  have "match_loop clk0 hft_sell49 hft_bids2 = (hft_sell49\<lparr>quantity := 0\<rparr>, bk4, [?t])"
    using match_loop_step[OF c1, of 0 "[1]" clk0 ?t "hft_sell49\<lparr>quantity := 0\<rparr>" bk4, OF _ _ _ l2] i1 q1 st
    by (simp add: MAX_PRICE_LEVELS_def)
  then show ?thesis by (simp add: addOrder_def matchOrder_def)
qed

subsection \<open>OrderBook-Engine on its example orders\<close>

declare buy_loop.simps [simp del] sell_loop.simps [simp del]

lemma engine_step1: "engine_matchOrder engine_buy1 engine_empty = Done ([], \<lparr>bids = [(100, [engine_buy1])], asks = []\<rparr>)"
  by (simp add: engine_matchOrder_def engine_buy1_def engine_empty_def buy_loop.simps)

lemma engine_step2: "engine_matchOrder engine_buy2 \<lparr>bids = [(100, [engine_buy1])], asks = []\<rparr>
    = Done ([], \<lparr>bids = [(100, [engine_buy1, engine_buy2])], asks = []\<rparr>)"
  by (simp add: engine_matchOrder_def engine_buy2_def engine_empty_def buy_loop.simps)

lemma engine_step3: "engine_matchOrder engine_sell3 \<lparr>bids = [(100, [engine_buy1, engine_buy2])], asks = []\<rparr>
    = Done ([\<lparr>et_side = ''SELL'', et_qty = 5, et_price = 100\<rparr>],
        \<lparr>bids = [(100, [engine_buy2, engine_buy1\<lparr>e_qty := 5\<rparr>])], asks = []\<rparr>)"
  by (simp add: engine_matchOrder_def engine_sell3_def engine_buy1_def engine_buy2_def sell_loop.simps)

text \<open>
  The same three resting asks and the same buy as in the HFT example, at prices 101 to
  103: this matcher goes on to the next level when one empties.
\<close>

lemma engine_walks_three_levels:
  "engine_matchOrder \<lparr>e_id = 4, e_side = ''BUY'', e_price = 103, e_qty = 100\<rparr> engine_asks3
     = Done ([\<lparr>et_side = ''BUY'', et_qty = 30, et_price = 101\<rparr>,
              \<lparr>et_side = ''BUY'', et_qty = 40, et_price = 102\<rparr>,
              \<lparr>et_side = ''BUY'', et_qty = 30, et_price = 103\<rparr>],
             \<lparr>bids = [],
              asks = [(103, [\<lparr>e_id = 3, e_side = ''SELL'', e_price = 103, e_qty = 20\<rparr>])]\<rparr>)"
  by (simp add: engine_matchOrder_def engine_asks3_def buy_loop.simps)

text \<open>
  In general, when this matcher's buy loop is done, the incoming order has no quantity
  left, or no ask is left, or the best ask is above the order's price.
\<close>

lemma buy_loop_exhausts:
  "buy_loop ord m = Done (ord', m', ts) \<Longrightarrow>
   e_qty ord' \<le> 0 \<or> m' = [] \<or> e_price ord' < fst (hd m')"
proof (induction ord m arbitrary: ord' m' ts rule: buy_loop.induct)
  case (1 ord asks)
  show ?case
  proof (cases asks)
    case Nil
    then show ?thesis using "1.prems" by (simp add: buy_loop.simps)
  next
    case (Cons kq rest)
    obtain k q where kq: "kq = (k, q)" by (cases kq)
    show ?thesis
    proof (cases "0 < e_qty ord \<and> k \<le> e_price ord")
      case False
      then show ?thesis using "1.prems" Cons kq
        by (subst (asm) buy_loop.simps) auto
    next
      case True
      show ?thesis
      proof (cases q)
        case Nil
        then show ?thesis using "1.prems" Cons kq True
          by (subst (asm) buy_loop.simps) simp
      next
        case (Cons sell q1)
        let ?traded = "min (e_qty ord) (e_qty sell)"
        let ?ord1 = "ord\<lparr>e_qty := e_qty ord - ?traded\<rparr>"
        let ?sell1 = "sell\<lparr>e_qty := e_qty sell - ?traded\<rparr>"
        let ?t = "\<lparr>et_side = ''BUY'', et_qty = ?traded, et_price = e_price ?sell1\<rparr>"
        let ?q2 = "if 0 < e_qty ?sell1 then q1 @ [?sell1] else q1"
        let ?asks1 = "if ?q2 = [] then rest else (k, ?q2) # rest"
        from "1.prems" \<open>asks = kq # rest\<close> kq True Cons
        obtain ts' where r: "buy_loop ?ord1 ?asks1 = Done (ord', m', ts')"
          by (subst (asm) buy_loop.simps)
             (auto simp: Let_def split: outcome.splits if_splits)
        show ?thesis
          by (rule "1.IH"[OF \<open>asks = kq # rest\<close> kq[symmetric] True Cons refl refl refl refl refl refl r])
      qed
    qed
  qed
qed


subsection \<open>The cached best prices are current on every book that is reached\<close>

lemma updateBestPrices_idem: "updateBestPrices (updateBestPrices bk) = updateBestPrices bk"
  by (simp add: updateBestPrices_def cong: option.case_cong)

lemma addToBook_current:
  "updateBestPrices bk = bk \<Longrightarrow> updateBestPrices (addToBook order bk) = addToBook order bk"
  by (simp add: addToBook_def Let_def split_beta updateBestPrices_idem)

lemma matchOrder_current:
  "updateBestPrices (fst (snd (matchOrder clk order bk))) = fst (snd (matchOrder clk order bk))"
  by (simp add: matchOrder_def split_beta updateBestPrices_idem)

lemma addOrder_current:
  "updateBestPrices (snd (snd (addOrder clk order bk))) = snd (snd (addOrder clk order bk))"
  by (simp add: addOrder_def split_beta Let_def matchOrder_current addToBook_current)

lemma cancelOrder_current:
  "updateBestPrices bk = bk \<Longrightarrow>
   updateBestPrices (snd (cancelOrder oid bk)) = snd (cancelOrder oid bk)"
  by (simp add: cancelOrder_def Let_def updateBestPrices_idem split: option.splits)

lemma best_prices_of_current:
  assumes "updateBestPrices bk = bk"
  shows "best_bid bk =
          (case find (\<lambda>i. 0 < order_count (bid_levels bk i)) (rev [0 ..< MAX_PRICE_LEVELS]) of
             None \<Rightarrow> 0 | Some i \<Rightarrow> level_price (bid_levels bk i))"
    and "best_ask bk =
          (case find (\<lambda>i. 0 < order_count (ask_levels bk i)) [0 ..< MAX_PRICE_LEVELS] of
             None \<Rightarrow> UINT64_MAX | Some i \<Rightarrow> level_price (ask_levels bk i))"
proof -
  have "best_bid (updateBestPrices bk) = best_bid bk" "best_ask (updateBestPrices bk) = best_ask bk"
    using assms by simp_all
  then show "best_bid bk =
          (case find (\<lambda>i. 0 < order_count (bid_levels bk i)) (rev [0 ..< MAX_PRICE_LEVELS]) of
             None \<Rightarrow> 0 | Some i \<Rightarrow> level_price (bid_levels bk i))"
    and "best_ask bk =
          (case find (\<lambda>i. 0 < order_count (ask_levels bk i)) [0 ..< MAX_PRICE_LEVELS] of
             None \<Rightarrow> UINT64_MAX | Some i \<Rightarrow> level_price (ask_levels bk i))"
    by (simp_all add: updateBestPrices_def)
qed

lemma updateBestPrices_total_quantity:
  assumes "updateBestPrices bk = bk"
  shows "updateBestPrices
           (set_level s i ((level_at s i bk)\<lparr>total_quantity := t\<rparr>) bk\<lparr>nodes := f\<rparr>)
         = set_level s i ((level_at s i bk)\<lparr>total_quantity := t\<rparr>) bk\<lparr>nodes := f\<rparr>"
proof -
  let ?bk = "set_level s i ((level_at s i bk)\<lparr>total_quantity := t\<rparr>) bk\<lparr>nodes := f\<rparr>"
  have c: "order_count (bid_levels ?bk j) = order_count (bid_levels bk j)"
    "order_count (ask_levels ?bk j) = order_count (ask_levels bk j)"
    "level_price (bid_levels ?bk j) = level_price (bid_levels bk j)"
    "level_price (ask_levels ?bk j) = level_price (ask_levels bk j)" for j
    by (simp_all add: set_level_def level_at_def)
  have b: "best_bid ?bk = best_bid bk" "best_ask ?bk = best_ask bk"
    by (simp_all add: set_level_def)
  have "updateBestPrices ?bk = ?bk\<lparr>best_bid := best_bid bk, best_ask := best_ask bk\<rparr>"
    unfolding updateBestPrices_def c
    using best_prices_of_current[OF assms] by simp
  also have "\<dots> = ?bk" using b by (metis OrderBook.surjective OrderBook.update_convs(3) OrderBook.update_convs(4))
  finally show ?thesis .
qed

lemma modifyOrder_current:
  "updateBestPrices bk = bk \<Longrightarrow>
   updateBestPrices (snd (modifyOrder oid q bk)) = snd (modifyOrder oid q bk)"
  by (simp add: modifyOrder_def Let_def updateBestPrices_total_quantity split: option.splits)

lemma run_calls_current:
  "updateBestPrices bk = bk \<Longrightarrow> updateBestPrices (run_calls clk cs bk) = run_calls clk cs bk"
proof (induction cs arbitrary: bk)
  case Nil
  then show ?case by simp
next
  case (Cons c cs)
  have "updateBestPrices (apply_call clk c bk) = apply_call clk c bk"
    using Cons.prems
    by (cases c) (simp_all add: addOrder_current cancelOrder_current modifyOrder_current)
  then show ?case using Cons.IH by simp
qed

lemma addOrder_zero_quantity_any:
  "quantity order = 0 \<Longrightarrow> addOrder clk order bk = (True, [], updateBestPrices bk)"
  by (simp add: addOrder_def matchOrder_def match_loop_stop loop_cond_def)

subsection \<open>Booking an order, and the book with every pool cell in use\<close>

lemma addOrders_append:
  "addOrders clk (xs @ ys) bk =
     (fst (addOrders clk xs bk) @ fst (addOrders clk ys (snd (addOrders clk xs bk))),
      snd (addOrders clk ys (snd (addOrders clk xs bk))))"
  by (induction xs arbitrary: bk) (simp_all add: split_beta)

lemma addOrder_no_cross:
  "\<not> loop_cond order bk \<Longrightarrow>
   addOrder clk order bk =
     (True, [], if 0 < quantity order then addToBook order (updateBestPrices bk)
                else updateBestPrices bk)"
  by (simp add: addOrder_def matchOrder_no_cross)

lemma addToBook_books:
  assumes "unat (price order - base_price) < MAX_PRICE_LEVELS"
  shows "booked_in order (fst (allocate 4096 (order_pool bk))) bk (addToBook order bk)"
    and "order_pool (addToBook order bk) = snd (allocate 4096 (order_pool bk))"
  using assms
  by (simp_all add: booked_in_def addToBook_def Let_def split_beta updateBestPrices_def
      level_at_def set_level_def)

lemma booked_in_updateBestPrices:
  "booked_in ord cell (updateBestPrices b) b' = booked_in ord cell b b'"
  by (simp add: booked_in_def level_at_def updateBestPrices_fields)

lemma allocate_empty:
  assumes "0 < BlockSize" and "free_list p = []"
  shows "allocate BlockSize p =
      (length (blocks p) * BlockSize,
       \<lparr>free_list = [length (blocks p) * BlockSize + 1
                       ..< length (blocks p) * BlockSize + BlockSize],
        blocks = blocks p @ [length (blocks p) * BlockSize]\<rparr>)"
  using assms by (simp add: allocate_def expandPool_def Let_def)

lemma addOrders_current:
  "updateBestPrices bk = bk \<Longrightarrow>
   updateBestPrices (snd (addOrders clk os bk)) = snd (addOrders clk os bk)"
  by (induction os arbitrary: bk) (simp_all add: split_beta addOrder_current)

lemma unat_of_nat_small64: "n < 4096 \<Longrightarrow> unat (of_nat n :: 64 word) = n"
  by (simp add: unat_of_nat)

lemma unat_of_nat_small32: "n \<le> 4096 \<Longrightarrow> unat (of_nat n :: 32 word) = n"
  by (simp add: unat_of_nat)

lemma of_nat_Suc_pos32: "n < 4096 \<Longrightarrow> (0 :: 32 word) < of_nat n + 1"
proof -
  assume "n < 4096"
  then have "unat (of_nat (Suc n) :: 32 word) = Suc n"
    using unat_of_nat_small32[of "Suc n"] by simp
  then have "(of_nat (Suc n) :: 32 word) \<noteq> 0" by (metis nat.distinct(1) unat_0)
  then show ?thesis by (simp add: word_greater_zero_iff add.commute)
qed

lemma addToBook_unit:
  assumes "n < 4096"
  shows "addToBook (hft_unit_sell n) (hft_unit_book n) = hft_unit_book (Suc n)"
proof (cases "n = 0")
  case True
  then show ?thesis
    unfolding hft_unit_book_def new_book_10000
    apply (simp add: addToBook_def Let_def hft_unit_sell_def base_price_def allocate_upt
        level_at_def set_level_def empty_level_def MAX_PRICE_LEVELS_def)
    apply (simp add: updateBestPrices_def find_rev_upt_None empty_level_def
        find_upt_Some[where i=101] MAX_PRICE_LEVELS_def fun_eq_iff unat_eq_zero)
    apply (simp add: hft_unit_sell_def)
    done
next
  case False
  have p: "(0 :: 32 word) < of_nat n + 1" using assms by (rule of_nat_Suc_pos32)
  have om: "(\<lambda>k :: 64 word. if unat k < n then Some (unat k) else None)(of_nat n \<mapsto> n)
          = (\<lambda>k. if unat k < Suc n then Some (unat k) else None)"
  proof -
    have e: "k = of_nat n \<longleftrightarrow> unat k = n" for k :: "64 word"
      using unat_of_nat_small64[OF assms] by (simp add: word_unat_eq_iff)
    show ?thesis by (auto simp: fun_eq_iff less_Suc_eq e)
  qed
  have nd: "(\<lambda>i. if i < n then hft_unit_sell i else blank_order)(n := hft_unit_sell n)
          = (\<lambda>i. if i < Suc n then hft_unit_sell i else blank_order)"
    by (auto simp: fun_eq_iff)
  show ?thesis
    using False assms
    unfolding hft_unit_book_def
    apply (simp add: addToBook_def Let_def base_price_def allocate_upt
        level_at_def set_level_def empty_level_def MAX_PRICE_LEVELS_def)
    apply (simp add: hft_unit_sell_def[of n] base_price_def allocate_upt
        level_at_def set_level_def empty_level_def MAX_PRICE_LEVELS_def)
    apply (simp add: updateBestPrices_def find_rev_upt_None empty_level_def
        find_upt_Some[where i=101] MAX_PRICE_LEVELS_def p)
    apply (simp add: om[unfolded hft_unit_sell_def] nd hft_unit_sell_def[of n, symmetric]
        add.commute)
    done
qed


lemma unit_book_run:
  "n \<le> 4096 \<Longrightarrow>
   addOrders clk0 (map hft_unit_sell [0 ..< n]) (new_book 10000) = ([], hft_unit_book n)"
proof (induction n)
  case 0
  then show ?case by (simp add: hft_unit_book_def)
next
  case (Suc n)
  then have ih: "addOrders clk0 (map hft_unit_sell [0 ..< n]) (new_book 10000)
                   = ([], hft_unit_book n)"
    and lt: "n < 4096" by simp_all
  have cur: "updateBestPrices (hft_unit_book n) = hft_unit_book n"
    using addOrders_current[OF updateBestPrices_new_book, of clk0 "map hft_unit_sell [0 ..< n]" 10000] ih
    by simp
  have bb: "best_bid (hft_unit_book n) = 0"
    by (simp add: hft_unit_book_def new_book_def)
  have nc: "\<not> loop_cond (hft_unit_sell n) (hft_unit_book n)"
    by (simp add: loop_cond_def bb hft_unit_sell_def)
  have "addOrder clk0 (hft_unit_sell n) (hft_unit_book n) = (True, [], hft_unit_book (Suc n))"
    using addOrder_no_cross[OF nc, of clk0] cur addToBook_unit[OF lt]
    by (simp add: hft_unit_sell_def)
  then show ?case using ih by (simp add: addOrders_append)
qed

lemma hft_full_book_eq: "hft_full_book = hft_unit_book 4096"
  by (simp add: hft_full_book_def unit_book_run)

lemma hft_full_book_fields:
  "free_list (order_pool hft_full_book) = []"
  "blocks (order_pool hft_full_book) = [0]"
  "best_bid hft_full_book = 0"
  "queue (ask_levels hft_full_book 200) = []"
  "queue (ask_levels hft_full_book 101) = [0 ..< 4096]"
  "order_map hft_full_book 5000 = None"
  by (simp_all add: hft_full_book_eq hft_unit_book_def empty_level_def)

lemma new_pool_one_block:
  "blocks (new_pool BlockSize) = [0]"
  "free_list (new_pool BlockSize) = [0 ..< BlockSize]"
  "capacity BlockSize (new_pool BlockSize) = BlockSize"
  by (simp_all add: new_pool_def expandPool_def capacity_def)

lemma addOrder_rests_pool_full:
  assumes full: "free_list (order_pool bk) = []"
    and nc: "\<not> loop_cond order bk" and q: "0 < quantity order"
    and r: "unat (price order - base_price) < MAX_PRICE_LEVELS"
  shows "fst (snd (addOrder clk order bk)) = []"
    and "booked_in order (length (blocks (order_pool bk)) * 4096) bk
           (snd (snd (addOrder clk order bk)))"
    and "blocks (order_pool (snd (snd (addOrder clk order bk))))
           = blocks (order_pool bk) @ [length (blocks (order_pool bk)) * 4096]"
proof -
  let ?u = "updateBestPrices bk"
  have a: "addOrder clk order bk = (True, [], addToBook order ?u)"
    using addOrder_no_cross[OF nc] q by simp
  have pu: "order_pool ?u = order_pool bk" by (simp add: updateBestPrices_fields)
  have al: "allocate 4096 (order_pool ?u) =
      (length (blocks (order_pool bk)) * 4096,
       \<lparr>free_list = [length (blocks (order_pool bk)) * 4096 + 1
                       ..< length (blocks (order_pool bk)) * 4096 + 4096],
        blocks = blocks (order_pool bk) @ [length (blocks (order_pool bk)) * 4096]\<rparr>)"
    using allocate_empty[of 4096 "order_pool bk"] full pu by simp
  show "fst (snd (addOrder clk order bk)) = []" using a by simp
  show "booked_in order (length (blocks (order_pool bk)) * 4096) bk
           (snd (snd (addOrder clk order bk)))"
    using addToBook_books(1)[OF r, of ?u] al a by (simp add: booked_in_updateBestPrices)
  show "blocks (order_pool (snd (snd (addOrder clk order bk))))
           = blocks (order_pool bk) @ [length (blocks (order_pool bk)) * 4096]"
    using addToBook_books(2)[OF r, of ?u] al a by simp
qed

lemma addOrder_books_residual:
  assumes "0 < quantity (fst (matchOrder clk order bk))"
    and "unat (price order - base_price) < MAX_PRICE_LEVELS"
  shows "booked_in (fst (matchOrder clk order bk))
           (fst (allocate 4096 (order_pool (fst (snd (matchOrder clk order bk))))))
           (fst (snd (matchOrder clk order bk))) (snd (snd (addOrder clk order bk)))"
proof -
  have r: "unat (price (fst (matchOrder clk order bk)) - base_price) < MAX_PRICE_LEVELS"
    using assms(2) by (simp add: matchOrder_price)
  have "snd (snd (addOrder clk order bk))
          = addToBook (fst (matchOrder clk order bk)) (fst (snd (matchOrder clk order bk)))"
    using assms(1) by (simp add: addOrder_def split_beta Let_def)
  then show ?thesis using addToBook_books(1)[OF r] by simp
qed

lemma addOrder_filled_not_booked:
  "quantity (fst (matchOrder clk order bk)) = 0 \<Longrightarrow>
   snd (snd (addOrder clk order bk)) = fst (snd (matchOrder clk order bk))"
  by (simp add: addOrder_def split_beta Let_def)

lemma not_cross_full_book: "\<not> loop_cond hft_sell_10200 hft_full_book"
  by (simp add: loop_cond_def hft_sell_10200_def hft_full_book_fields)

lemma sell_10200_fields:
  "0 < quantity hft_sell_10200"
  "unat (price hft_sell_10200 - base_price) = 200"
  "side hft_sell_10200 = SELL" "order_id hft_sell_10200 = 5000"
  by (simp_all add: hft_sell_10200_def base_price_def)

lemma removeFromBook_pool_blocks:
  "blocks (order_pool (removeFromBook node s i bk)) = blocks (order_pool bk)"
  by (simp add: removeFromBook_def Let_def set_level_fields deallocate_def)

lemma removeFromBook_order_map_None:
  "order_map bk k = None \<Longrightarrow> order_map (removeFromBook node s i bk) k = None"
  by (simp add: removeFromBook_def Let_def set_level_fields)

lemma executeTrade_pool_map:
  "order_pool (snd (executeTrade clk node order q bk)) = order_pool bk"
  "order_map (snd (executeTrade clk node order q bk)) = order_map bk"
  by (simp_all add: executeTrade_def Let_def)

lemma match_step_pool_blocks:
  "match_step clk node i order bk = (trade, order1, bk4) \<Longrightarrow>
   blocks (order_pool bk4) = blocks (order_pool bk)"
  by (auto simp: match_step_def Let_def split_beta set_level_fields removeFromBook_pool_blocks
      executeTrade_pool_map)

lemma match_step_order_map_None:
  "match_step clk node i order bk = (trade, order1, bk4) \<Longrightarrow>
   order_map bk k = None \<Longrightarrow> order_map bk4 k = None"
  by (auto simp: match_step_def Let_def split_beta set_level_fields removeFromBook_order_map_None
      executeTrade_pool_map)

lemma full_book_more_fields:
  "best_ask hft_full_book = 10101"
  "nodes hft_full_book 0 = hft_unit_sell 0"
  "order_map hft_full_book 7000 = None"
  by (simp_all add: hft_full_book_eq hft_unit_book_def)

lemma buy_one_filled:
  "fst (snd (addOrder clk0 hft_buy_one hft_full_book))
     = [\<lparr>buy_order_id = 7000, sell_order_id = 0, t_price = 10101, t_quantity = 1,
         t_timestamp = 0\<rparr>]"
  "quantity (fst (matchOrder clk0 hft_buy_one hft_full_book)) = 0"
  "blocks (order_pool (fst (snd (matchOrder clk0 hft_buy_one hft_full_book)))) = [0]"
  "order_map (fst (snd (matchOrder clk0 hft_buy_one hft_full_book))) 7000 = None"
proof -
  have c: "loop_cond hft_buy_one hft_full_book"
    by (simp add: loop_cond_def hft_buy_one_def full_book_more_fields UINT64_MAX_def)
  have i: "unat (best_opposite hft_buy_one hft_full_book - base_price) = 101"
    by (simp add: best_opposite_def hft_buy_one_def full_book_more_fields base_price_def)
  have q: "queue (level_at (opposite (side hft_buy_one)) 101 hft_full_book) = 0 # [1 ..< 4096]"
    by (simp add: level_at_def opposite_def hft_buy_one_def hft_full_book_fields
        upt_conv_Cons[of 0 4096])
  obtain trade order1 bk4 where
    st: "match_step clk0 0 101 hft_buy_one hft_full_book = (trade, order1, bk4)"
    by (metis prod_cases3)
  have o1: "order1 = hft_buy_one\<lparr>quantity := 0\<rparr>"
    using match_step_order[OF st]
    by (simp add: full_book_more_fields hft_unit_sell_def hft_buy_one_def)
  have tr: "trade = \<lparr>buy_order_id = 7000, sell_order_id = 0, t_price = 10101, t_quantity = 1,
         t_timestamp = 0\<rparr>"
    using match_step_trade[OF st]
    by (simp add: full_book_more_fields hft_unit_sell_def hft_buy_one_def clk0_def)
  have l2: "match_loop clk0 order1 bk4 = (order1, bk4, [])"
    by (rule match_loop_stop) (simp add: loop_cond_def o1)
  have ml: "match_loop clk0 hft_buy_one hft_full_book = (order1, bk4, [trade])"
    using match_loop_step[OF c, of 0 "[1 ..< 4096]" clk0 trade order1 bk4, OF _ _ _ l2] i q st
    by (simp add: MAX_PRICE_LEVELS_def)
  show "fst (snd (addOrder clk0 hft_buy_one hft_full_book))
     = [\<lparr>buy_order_id = 7000, sell_order_id = 0, t_price = 10101, t_quantity = 1,
         t_timestamp = 0\<rparr>]"
    by (simp add: addOrder_def matchOrder_def ml split_beta Let_def tr)
  show "quantity (fst (matchOrder clk0 hft_buy_one hft_full_book)) = 0"
    by (simp add: matchOrder_def ml o1)
  show "blocks (order_pool (fst (snd (matchOrder clk0 hft_buy_one hft_full_book)))) = [0]"
    using match_step_pool_blocks[OF st]
    by (simp add: matchOrder_def ml updateBestPrices_fields hft_full_book_fields)
  show "order_map (fst (snd (matchOrder clk0 hft_buy_one hft_full_book))) 7000 = None"
    using match_step_order_map_None[OF st full_book_more_fields(3)]
    by (simp add: matchOrder_def ml updateBestPrices_fields)
qed

section \<open>The claims\<close>

lemma update_asks1: "updateBestPrices hft_asks1 = hft_asks1"
  by (simp add: hft_asks1_def updateBestPrices_def find_rev_upt_None empty_level_def
      find_upt_Some[where i=101] MAX_PRICE_LEVELS_def)

lemma hft_run_to_asks3:
  "addOrders clk0 [hft_sell1, hft_sell2, hft_sell3] (new_book 10000) = ([], hft_asks3)"
  by (simp add: add_sell1 add_sell2 add_sell3)

text \<open>
  Claim C1. After a completed \<open>addOrder\<close> the book is not crossed. The HFT book breaks
  this. Three sells rest at 10101, 10102 and 10103; a buy of 100 at 10103 is matched
  against the level at 10101 only, and its remaining 70 are booked at 10103 while the
  asks at 10102 and 10103 still rest: the cached best bid is 10103, the cached best ask
  10102, both sides hold orders, and the best bid is not below the best ask.
\<close>

theorem hft_addOrder_leaves_book_crossed:
  "snd (addOrders clk0 [hft_sell1, hft_sell2, hft_sell3, hft_buy4] (new_book 10000)) = hft_crossed \<and>
   best_bid hft_crossed = 10103 \<and> best_ask hft_crossed = 10102 \<and>
   queue (bid_levels hft_crossed 103) = [0] \<and> queue (ask_levels hft_crossed 102) = [1] \<and>
   \<not> best_bid hft_crossed < best_ask hft_crossed"
proof -
  have r: "snd (addOrders clk0 [hft_sell1, hft_sell2, hft_sell3, hft_buy4] (new_book 10000))
             = hft_crossed"
    by (simp add: add_sell1 add_sell2 add_sell3 add_buy4)
  have b: "best_bid hft_crossed = 10103" and a: "best_ask hft_crossed = 10102"
    by (simp_all add: hft_crossed_def)
  have q: "queue (bid_levels hft_crossed 103) = [0]" "queue (ask_levels hft_crossed 102) = [1]"
    by (simp_all add: hft_crossed_def)
  show ?thesis using r q by (simp add: a b)
qed

text \<open>
  Claim C2. Matching walks the book across price levels. The HFT loop does not: it
  tests the cached \<open>best_ask_\<close>, which is not refreshed when a level empties, finds the
  emptied level on the next pass and leaves the loop. On the resting asks 30 at 10101,
  40 at 10102 and 50 at 10103, a buy of 100 at 10103 makes the single trade 30 at
  10101; the asks of 40 and 50 keep their quantities and 70 rest on the bid side.
\<close>

theorem hft_matchOrder_stops_after_one_level:
  "addOrder clk0 hft_buy4 hft_asks3 = (True, [hft_trade1], hft_crossed) \<and>
   t_quantity hft_trade1 = 30 \<and> t_price hft_trade1 = 10101 \<and>
   total_quantity (ask_levels hft_crossed 102) = 40 \<and>
   total_quantity (ask_levels hft_crossed 103) = 50 \<and>
   total_quantity (bid_levels hft_crossed 103) = 70 \<and>
   level_price (bid_levels hft_crossed 103) = 10103"
proof -
  have t: "t_quantity hft_trade1 = 30" "t_price hft_trade1 = 10101"
    by (simp_all add: hft_trade1_def)
  have l: "total_quantity (ask_levels hft_crossed 102) = 40"
    "total_quantity (ask_levels hft_crossed 103) = 50"
    "total_quantity (bid_levels hft_crossed 103) = 70"
    "level_price (bid_levels hft_crossed 103) = 10103"
    by (simp_all add: hft_crossed_def)
  show ?thesis using add_buy4 t l by simp
qed

text \<open>
  Claim C3, as stated: the pool's capacity is fixed, \<open>allocate\<close> fails when all cells
  are in use, and a new order arriving with the pool full is rejected with no state
  change. None of this holds. A pool of block size 2 with both cells handed out has
  capacity 2 and an empty free list; the next \<open>allocate\<close> returns cell 2 of a second
  block and the capacity is 4. After 4096 sells were submitted to a new book, every cell
  of the book's pool is in use; a sell at 10200 submitted then gets the answer \<open>true\<close>,
  is in the directory in cell 4096 and alone on its level, and the pool has a second
  block.
\<close>

theorem allocate_exhausted_example:
  "free_list exhausted_pool = [] \<and> capacity 2 exhausted_pool = 2 \<and>
   fst (allocate 2 exhausted_pool) = 2 \<and>
   capacity 2 (snd (allocate 2 exhausted_pool)) = 4 \<and>
   blocks (snd (allocate 2 exhausted_pool)) = [0, 2] \<and>
   free_list (order_pool hft_full_book) = [] \<and>
   blocks (order_pool hft_full_book) = [0] \<and>
   order_map hft_full_book 5000 = None \<and>
   fst (addOrder clk0 hft_sell_10200 hft_full_book) = True \<and>
   order_map (snd (snd (addOrder clk0 hft_sell_10200 hft_full_book))) 5000 = Some 4096 \<and>
   queue (ask_levels (snd (snd (addOrder clk0 hft_sell_10200 hft_full_book))) 200) = [4096] \<and>
   blocks (order_pool (snd (snd (addOrder clk0 hft_sell_10200 hft_full_book)))) = [0, 4096]"
proof -
  have r: "unat (price hft_sell_10200 - base_price) < MAX_PRICE_LEVELS"
    by (simp add: sell_10200_fields MAX_PRICE_LEVELS_def)
  note b = addOrder_rests_pool_full[OF hft_full_book_fields(1) not_cross_full_book
      sell_10200_fields(1) r, of clk0]
  have p: "free_list exhausted_pool = [] \<and> capacity 2 exhausted_pool = 2 \<and>
     fst (allocate 2 exhausted_pool) = 2 \<and>
     capacity 2 (snd (allocate 2 exhausted_pool)) = 4 \<and>
     blocks (snd (allocate 2 exhausted_pool)) = [0, 2]"
    by (simp add: exhausted_pool_eq allocate_def expandPool_def capacity_def Let_def upt_conv_Cons)
  have t: "fst (addOrder clk0 hft_sell_10200 hft_full_book) = True"
    by (simp add: addOrder_def split_beta Let_def)
  have m: "order_map (snd (snd (addOrder clk0 hft_sell_10200 hft_full_book))) 5000 = Some 4096"
    and q: "queue (ask_levels (snd (snd (addOrder clk0 hft_sell_10200 hft_full_book))) 200) = [4096]"
    using b(2)
    by (simp_all add: booked_in_def Let_def sell_10200_fields hft_full_book_fields level_at_def)
  have bl: "blocks (order_pool (snd (snd (addOrder clk0 hft_sell_10200 hft_full_book)))) = [0, 4096]"
    using b(3) by (simp add: hft_full_book_fields)
  show ?thesis using p t m q bl by (simp add: hft_full_book_fields)
qed

text \<open>
  Claim C3, amended: the pool's capacity is not fixed. A new pool has one block of
  \<open>BlockSize\<close> cells. When every cell is in use, \<open>allocate\<close> takes one more block of
  \<open>BlockSize\<close> cells, returns the first cell of that block and leaves the rest of it
  free; the capacity is larger by \<open>BlockSize\<close>, and there is no failure result. A new
  order arriving with the pool full is not rejected: \<open>addOrder\<close> returns \<open>true\<close>. If the
  order crosses nothing, has a positive quantity and a price in the ladder's range, no
  trade is made and it is booked in the first cell of a new block of the book's pool.
  In general, what \<open>matchOrder\<close> leaves of an order with a price in range is booked, if
  its quantity is positive, in the cell \<open>allocate\<close> returns from the pool as matching
  left it, and an order that matching fills completely is not booked.
\<close>

theorem allocate_never_fails:
  assumes "0 < BlockSize" and "free_list p = []" and "free_list (order_pool bk) = []"
  shows "blocks (new_pool BlockSize) = [0] \<and>
         capacity BlockSize (new_pool BlockSize) = BlockSize \<and>
         allocate BlockSize p =
           (length (blocks p) * BlockSize,
            \<lparr>free_list = [length (blocks p) * BlockSize + 1
                            ..< length (blocks p) * BlockSize + BlockSize],
             blocks = blocks p @ [length (blocks p) * BlockSize]\<rparr>) \<and>
         capacity BlockSize (snd (allocate BlockSize p)) = capacity BlockSize p + BlockSize \<and>
         fst (addOrder clk order bk) = True \<and>
         (\<not> loop_cond order bk \<and> 0 < quantity order \<and>
          unat (price order - base_price) < MAX_PRICE_LEVELS \<longrightarrow>
            fst (snd (addOrder clk order bk)) = [] \<and>
            booked_in order (length (blocks (order_pool bk)) * 4096) bk
              (snd (snd (addOrder clk order bk))) \<and>
            blocks (order_pool (snd (snd (addOrder clk order bk))))
              = blocks (order_pool bk) @ [length (blocks (order_pool bk)) * 4096]) \<and>
         (0 < quantity (fst (matchOrder clk order bk)) \<and>
          unat (price order - base_price) < MAX_PRICE_LEVELS \<longrightarrow>
            booked_in (fst (matchOrder clk order bk))
              (fst (allocate 4096 (order_pool (fst (snd (matchOrder clk order bk))))))
              (fst (snd (matchOrder clk order bk))) (snd (snd (addOrder clk order bk)))) \<and>
         (quantity (fst (matchOrder clk order bk)) = 0 \<longrightarrow>
            snd (snd (addOrder clk order bk)) = fst (snd (matchOrder clk order bk)))"
proof -
  have a: "allocate BlockSize p =
           (length (blocks p) * BlockSize,
            \<lparr>free_list = [length (blocks p) * BlockSize + 1
                            ..< length (blocks p) * BlockSize + BlockSize],
             blocks = blocks p @ [length (blocks p) * BlockSize]\<rparr>)"
    by (rule allocate_empty[OF assms(1,2)])
  have c: "capacity BlockSize (snd (allocate BlockSize p)) = capacity BlockSize p + BlockSize"
    by (simp add: a capacity_def)
  have t: "fst (addOrder clk order bk) = True"
    by (simp add: addOrder_def split_beta Let_def)
  show ?thesis
    using a c t new_pool_one_block(1,3)[of BlockSize]
      addOrder_rests_pool_full[OF assms(3), of order clk]
      addOrder_books_residual[of clk order bk]
      addOrder_filled_not_booked[of clk order bk]
    by blast
qed

theorem allocate_never_fails_witness:
  "allocate 3 \<lparr>free_list = [], blocks = [0, 3]\<rparr>
     = (6, \<lparr>free_list = [7 ..< 9], blocks = [0, 3, 6]\<rparr>) \<and>
   free_list (order_pool hft_full_book) = [] \<and>
   \<not> loop_cond hft_sell_10200 hft_full_book \<and>
   fst (addOrder clk0 hft_sell_10200 hft_full_book) = True \<and>
   fst (snd (addOrder clk0 hft_sell_10200 hft_full_book)) = [] \<and>
   booked_in hft_sell_10200 4096 hft_full_book
     (snd (snd (addOrder clk0 hft_sell_10200 hft_full_book))) \<and>
   blocks (order_pool (snd (snd (addOrder clk0 hft_sell_10200 hft_full_book)))) = [0, 4096] \<and>
   fst (addOrder clk0 hft_buy_one hft_full_book) = True \<and>
   quantity (fst (matchOrder clk0 hft_buy_one hft_full_book)) = 0 \<and>
   order_map (snd (snd (addOrder clk0 hft_buy_one hft_full_book))) 7000 = None \<and>
   blocks (order_pool (snd (snd (addOrder clk0 hft_buy_one hft_full_book)))) = [0]"
proof -
  have h1: "(0::nat) < 3" by simp
  have h2: "free_list \<lparr>free_list = [], blocks = [0, 3]\<rparr> = []" by simp
  have r: "unat (price hft_sell_10200 - base_price) < MAX_PRICE_LEVELS"
    by (simp add: sell_10200_fields MAX_PRICE_LEVELS_def)
  have a: "allocate 3 \<lparr>free_list = [], blocks = [0, 3]\<rparr>
     = (6, \<lparr>free_list = [7 ..< 9], blocks = [0, 3, 6]\<rparr>) \<and>
   free_list (order_pool hft_full_book) = [] \<and>
   \<not> loop_cond hft_sell_10200 hft_full_book \<and>
   fst (addOrder clk0 hft_sell_10200 hft_full_book) = True \<and>
   fst (snd (addOrder clk0 hft_sell_10200 hft_full_book)) = [] \<and>
   booked_in hft_sell_10200 4096 hft_full_book
     (snd (snd (addOrder clk0 hft_sell_10200 hft_full_book))) \<and>
   blocks (order_pool (snd (snd (addOrder clk0 hft_sell_10200 hft_full_book)))) = [0, 4096]"
    using allocate_never_fails [OF h1 h2 hft_full_book_fields(1), of clk0 hft_sell_10200]
      not_cross_full_book sell_10200_fields(1) r
    by (simp add: hft_full_book_fields)
  have b: "fst (addOrder clk0 hft_buy_one hft_full_book) = True \<and>
   quantity (fst (matchOrder clk0 hft_buy_one hft_full_book)) = 0 \<and>
   order_map (snd (snd (addOrder clk0 hft_buy_one hft_full_book))) 7000 = None \<and>
   blocks (order_pool (snd (snd (addOrder clk0 hft_buy_one hft_full_book)))) = [0]"
    using allocate_never_fails [OF h1 h2 hft_full_book_fields(1), of clk0 hft_buy_one]
      buy_one_filled(2,3,4)
    by simp
  show ?thesis using a b by blast
qed




text \<open>
  Claim C5, as stated: a quantity increase cancels the node and re-submits it under a
  fresh order id, losing priority. In the HFT book, orders 1 and 2 rest at 10050 in this
  order with 10 each; \<open>modifyOrder 1 25\<close> returns \<open>true\<close>, order 1 keeps its node, its id
  and its place ahead of order 2, and now has quantity 25.
\<close>

theorem modifyOrder_increase_example:
  "addOrders clk0 [hft_bidA, hft_bidB] (new_book 10000) = ([], hft_bids2) \<and>
   fst (modifyOrder 1 25 hft_bids2) = True \<and>
   queue (bid_levels (snd (modifyOrder 1 25 hft_bids2)) 50) = [0, 1] \<and>
   order_map (snd (modifyOrder 1 25 hft_bids2)) 1 = Some 0 \<and>
   order_id (nodes (snd (modifyOrder 1 25 hft_bids2)) 0) = 1 \<and>
   quantity (nodes hft_bids2 0) = 10 \<and>
   quantity (nodes (snd (modifyOrder 1 25 hft_bids2)) 0) = 25"
proof -
  have r: "addOrders clk0 [hft_bidA, hft_bidB] (new_book 10000) = ([], hft_bids2)"
    by (simp add: add_bidA add_bidB)
  have m: "order_map hft_bids2 1 = Some 0" and q0: "quantity (nodes hft_bids2 0) = 10"
    by (simp_all add: hft_bids2_def hft_bidA_def)
  have i: "order_id hft_bidA = 1" by (simp add: hft_bidA_def)
  show ?thesis using r q0 by (simp add: modify_bidA m i)
qed

text \<open>
  Claim C5, amended: \<open>modifyOrder\<close> of the HFT book takes an order id and a new quantity
  and no price. For an order in the directory whose price is in the ladder's range it
  returns \<open>true\<close> and rewrites the quantity in place, whatever the new quantity is,
  smaller or larger: every level's queue is as before, so the node keeps its position,
  the directory and the pool are as before, the node has the new quantity and its level's
  \<open>total_quantity\<close> is adjusted by the difference. It never cancels and re-submits.
\<close>

theorem modifyOrder_in_place:
  assumes "order_map bk oid = Some node"
    and "unat (price (nodes bk node) - base_price) < MAX_PRICE_LEVELS"
  shows "fst (modifyOrder oid q bk) = True \<and>
         queue (level_at s i (snd (modifyOrder oid q bk))) = queue (level_at s i bk) \<and>
         order_map (snd (modifyOrder oid q bk)) = order_map bk \<and>
         order_pool (snd (modifyOrder oid q bk)) = order_pool bk \<and>
         nodes (snd (modifyOrder oid q bk)) = (nodes bk)(node := (nodes bk node)\<lparr>quantity := q\<rparr>) \<and>
         total_quantity (level_at (side (nodes bk node)) (unat (price (nodes bk node) - base_price))
                           (snd (modifyOrder oid q bk)))
           = total_quantity (level_at (side (nodes bk node))
                               (unat (price (nodes bk node) - base_price)) bk)
             - quantity (nodes bk node) + q"
  using assms
  by (auto simp: modifyOrder_def Let_def level_at_def set_level_def)

theorem modifyOrder_in_place_witness:
  "fst (modifyOrder 2 3 hft_bids2) = True \<and>
   queue (level_at BUY 50 (snd (modifyOrder 2 3 hft_bids2))) = [0, 1] \<and>
   order_map (snd (modifyOrder 2 3 hft_bids2)) = order_map hft_bids2 \<and>
   order_pool (snd (modifyOrder 2 3 hft_bids2)) = order_pool hft_bids2 \<and>
   nodes (snd (modifyOrder 2 3 hft_bids2)) = (nodes hft_bids2)(1 := hft_bidB\<lparr>quantity := 3\<rparr>) \<and>
   total_quantity (level_at BUY 50 (snd (modifyOrder 2 3 hft_bids2))) = 13"
proof -
  have h1: "order_map hft_bids2 2 = Some 1"
    by (simp add: hft_bids2_def)
  have n: "nodes hft_bids2 1 = hft_bidB"
    by (simp add: hft_bids2_def)
  have i: "unat (price hft_bidB - base_price) = 50" and sd: "side hft_bidB = BUY"
    and qb: "quantity hft_bidB = 10"
    by (simp_all add: hft_bidB_def base_price_def)
  have h2: "unat (price (nodes hft_bids2 1) - base_price) < MAX_PRICE_LEVELS"
    using n i by (simp add: MAX_PRICE_LEVELS_def)
  have q: "queue (level_at BUY 50 hft_bids2) = [0, 1]"
    and tq: "total_quantity (level_at BUY 50 hft_bids2) = 20"
    by (simp_all add: hft_bids2_def level_at_def)
  show ?thesis
    using modifyOrder_in_place [OF h1 h2, of 3 BUY 50] n
    by (simp add: i sd qb q tq)
qed

text \<open>
  Claim C6. A partially filled resting order at the head of its level keeps the front
  position. \<open>matchOrder\<close> of OrderBook-Engine pops the head and pushes what is left of it
  at the back of the queue. Buys 1 and 2 rest at 100 in this order with 10 each; a sell
  of 5 at 100 trades with order 1, and the level is then order 2 with 10 followed by
  order 1 with 5: the older order is behind the younger one.
\<close>

theorem engine_partial_fill_moves_to_back:
  "engine_matchOrder engine_buy1 engine_empty
     = Done ([], \<lparr>bids = [(100, [engine_buy1])], asks = []\<rparr>) \<and>
   engine_matchOrder engine_buy2 \<lparr>bids = [(100, [engine_buy1])], asks = []\<rparr>
     = Done ([], \<lparr>bids = [(100, [engine_buy1, engine_buy2])], asks = []\<rparr>) \<and>
   engine_matchOrder engine_sell3 \<lparr>bids = [(100, [engine_buy1, engine_buy2])], asks = []\<rparr>
     = Done ([\<lparr>et_side = ''SELL'', et_qty = 5, et_price = 100\<rparr>],
             \<lparr>bids = [(100, [engine_buy2, engine_buy1\<lparr>e_qty := 5\<rparr>])], asks = []\<rparr>)"
  by (simp add: engine_step1 engine_step2 engine_step3)

text \<open>
  Claim C7. Every trade is priced at the resting order's price. The trades \<open>addOrder\<close>
  makes for an incoming order are priced, one after the other, at the prices stored in
  the nodes at the head of the opposite level at the cached best price, in queue order;
  the incoming order's own price is not used.
\<close>

theorem addOrder_trades_at_passive_price:
  "map t_price (fst (snd (addOrder clk order bk))) =
     map (\<lambda>n. price (nodes bk n))
       (take (length (fst (snd (addOrder clk order bk))))
          (queue (level_at (opposite (side order))
                    (unat (best_opposite order bk - base_price)) bk)))"
proof -
  have "fst (snd (addOrder clk order bk)) = snd (snd (match_loop clk order bk))"
    by (simp add: addOrder_def matchOrder_def split_beta Let_def)
  then show ?thesis using match_loop_trade_prices [of clk order bk] by simp
qed

theorem addOrder_trades_at_passive_price_witness:
  "price hft_sell49 = 10049 \<and>
   queue (level_at BUY 50 hft_bids2) = [0, 1] \<and> price (nodes hft_bids2 0) = 10050 \<and>
   map t_price (fst (snd (addOrder clk0 hft_sell49 hft_bids2))) = [10050]"
proof -
  have p: "price hft_sell49 = 10049" and sd: "opposite (side hft_sell49) = BUY"
    by (simp_all add: hft_sell49_def opposite_def)
  have i: "unat (best_opposite hft_sell49 hft_bids2 - base_price) = 50"
    by (simp add: best_opposite_def hft_sell49_def hft_bids2_def base_price_def)
  have q: "queue (level_at BUY 50 hft_bids2) = [0, 1]"
    by (simp add: hft_bids2_def level_at_def)
  have n: "price (nodes hft_bids2 0) = 10050"
    by (simp add: hft_bids2_def hft_bidA_def)
  show ?thesis
    using addOrder_trades_at_passive_price [of clk0 hft_sell49 hft_bids2]
    by (simp add: add_sell49 p sd i q n)
qed

text \<open>
  Claim C8. Quantity is conserved per order: the quantities of the trades made for a
  submitted order and the quantity the order has left on exit from \<open>matchOrder\<close> add up
  to the quantity it came with. The trades \<open>addOrder\<close> reports are these trades.
\<close>

theorem matchOrder_conserves_quantity:
  "(\<Sum>t\<leftarrow>snd (snd (matchOrder clk order bk)). unat (t_quantity t))
     + unat (quantity (fst (matchOrder clk order bk))) = unat (quantity order) \<and>
   fst (snd (addOrder clk order bk)) = snd (snd (matchOrder clk order bk))"
proof -
  have "snd (snd (matchOrder clk order bk)) = snd (snd (match_loop clk order bk))"
    and "fst (matchOrder clk order bk) = fst (match_loop clk order bk)"
    by (simp_all add: matchOrder_def split_beta Let_def)
  then show ?thesis
    using match_loop_conserves [of clk order bk]
    by (simp add: addOrder_def split_beta Let_def)
qed

theorem matchOrder_conserves_quantity_witness:
  "snd (snd (matchOrder clk0 hft_buy4 hft_asks3)) = [hft_trade1] \<and>
   unat (t_quantity hft_trade1) = 30 \<and>
   unat (quantity (fst (matchOrder clk0 hft_buy4 hft_asks3))) = 70 \<and>
   unat (quantity hft_buy4) = 100"
  using matchOrder_conserves_quantity [of clk0 hft_buy4 hft_asks3]
  by (simp add: matchOrder_def loop_buy4) (simp add: hft_trade1_def hft_buy4_def)

text \<open>
  Claim C9, as stated: a submission with quantity zero is rejected. A buy of quantity 0
  at 10101, against a book with an ask resting at 10101, gets the answer \<open>true\<close> from
  \<open>addOrder\<close>, the answer every order gets.
\<close>

theorem addOrder_zero_quantity_example:
  "quantity hft_zero_buy = 0 \<and>
   fst (addOrder clk0 hft_zero_buy hft_asks1) = True \<and>
   fst (addOrder clk0 hft_sell2 hft_asks1) = True"
  by (simp add: addOrder_def split_beta Let_def hft_zero_buy_def)

text \<open>
  Claim C9, amended: a submission with quantity zero is not rejected and causes no state
  change. On every book reached from a new book by calls of \<open>addOrder\<close>, \<open>cancelOrder\<close>
  and \<open>modifyOrder\<close>, \<open>addOrder\<close> of an order with quantity zero returns \<open>true\<close>, makes
  no trade and books no node, and the book, with its ladders, directory and best
  prices, is identical before and after.
\<close>

theorem addOrder_zero_quantity:
  assumes "quantity order = 0"
  shows "addOrder clk' order (run_calls clk cs (new_book n))
           = (True, [], run_calls clk cs (new_book n))"
  using addOrder_zero_quantity_any [OF assms]
    run_calls_current [OF updateBestPrices_new_book]
  by simp

theorem addOrder_zero_quantity_witness:
  "quantity hft_zero_buy = 0 \<and>
   run_calls clk0 [Call_addOrder hft_sell1] (new_book 10000) = hft_asks1 \<and>
   addOrder clk0 hft_zero_buy hft_asks1 = (True, [], hft_asks1)"
proof -
  have z: "quantity hft_zero_buy = 0" by (simp add: hft_zero_buy_def)
  have r: "run_calls clk0 [Call_addOrder hft_sell1] (new_book 10000) = hft_asks1"
    by (simp add: add_sell1)
  show ?thesis
    using addOrder_zero_quantity [OF z, of clk0 clk0 "[Call_addOrder hft_sell1]" 10000] z r
    by simp
qed

text \<open>
  Claim C10. \<open>addOrder\<close> returns \<open>true\<close> for every order. An order whose price is below
  \<open>base_price\<close> or at least \<open>base_price + MAX_PRICE_LEVELS\<close> is dropped by \<open>addToBook\<close>,
  which leaves the book as it is, and the book \<open>addOrder\<close> ends with is the one
  \<open>matchOrder\<close> left.
\<close>

theorem addOrder_returns_true:
  "fst (addOrder clk order bk) = True \<and>
   (price order < base_price \<or> unat base_price + MAX_PRICE_LEVELS \<le> unat (price order) \<longrightarrow>
      addToBook order bk = bk \<and>
      snd (snd (addOrder clk order bk)) = fst (snd (matchOrder clk order bk)))"
proof -
  have a: "fst (addOrder clk order bk) = True"
    by (simp add: addOrder_def split_beta Let_def)
  have b: "addToBook order bk = bk \<and>
      snd (snd (addOrder clk order bk)) = fst (snd (matchOrder clk order bk))"
    if "price order < base_price \<or> unat base_price + MAX_PRICE_LEVELS \<le> unat (price order)"
  proof -
    have r: "MAX_PRICE_LEVELS \<le> unat (price order - base_price)"
      using that level_idx_out_of_range by blast
    then have r': "MAX_PRICE_LEVELS \<le> unat (price (fst (matchOrder clk order bk)) - base_price)"
      by (simp add: matchOrder_price)
    have "addToBook order bk = bk" using r by (simp add: addToBook_def Let_def)
    moreover have "addToBook (fst (matchOrder clk order bk)) (fst (snd (matchOrder clk order bk)))
        = fst (snd (matchOrder clk order bk))"
      using r' by (simp add: addToBook_def Let_def)
    ultimately show ?thesis by (simp add: addOrder_def split_beta Let_def)
  qed
  show ?thesis using a b by blast
qed

theorem addOrder_returns_true_witness:
  "price hft_low_buy < base_price \<and>
   fst (addOrder clk0 hft_low_buy (new_book 10000)) = True \<and>
   addToBook hft_low_buy (new_book 10000) = new_book 10000 \<and>
   snd (snd (addOrder clk0 hft_low_buy (new_book 10000))) = new_book 10000 \<and>
   order_map (snd (snd (addOrder clk0 hft_low_buy (new_book 10000)))) 8 = None"
proof -
  have c: "\<not> loop_cond hft_low_buy (new_book 10000)"
    by (simp add: loop_cond_def hft_low_buy_def new_book_def UINT64_MAX_def)
  have m: "matchOrder clk0 hft_low_buy (new_book 10000) = (hft_low_buy, new_book 10000, [])"
    using matchOrder_no_cross [OF c] by (simp add: updateBestPrices_new_book)
  have p: "price hft_low_buy < base_price"
    by (simp add: hft_low_buy_def base_price_def)
  show ?thesis
    using addOrder_returns_true [of clk0 hft_low_buy "new_book 10000"] p m
    by (simp add: new_book_def)
qed

end
